theory Spec2Isabelle
  imports Main "HOL-Library.Word" "HOL-Library.Sublist"
begin

section \<open>Data model of the wallet snapshot\<close>

text \<open>
  The merge engine of \<^verbatim>\<open>src/hooks/use-convex-sync.ts\<close> works on untyped JavaScript
  objects. An entry of a collection is modelled as a record of the fields the engine
  reads: the identifier \<^verbatim>\<open>id\<close>, the three timestamp fields read by
  \<^verbatim>\<open>getTimestamp\<close>, the \<^verbatim>\<open>isDefault\<close> flag of a category, and the fields printed
  into the merge log. A field that is \<^verbatim>\<open>undefined\<close> is \<open>None\<close>; an undefined
  \<^verbatim>\<open>isDefault\<close> is falsy and therefore \<open>False\<close>. Numbers are integers.
\<close>

record entity =
  id' :: string
  lastModified :: "int option"
  timeEquivalent :: "int option"
  createdAt :: "int option"
  isDefault :: bool
  name :: string
  description :: string
  amount :: int

text \<open>
  The user profile is an object whose fields are overlaid by the spread operator; its
  \<^verbatim>\<open>lastModified\<close> field is kept apart because the merge computes it.
\<close>

record profile =
  profile_lastModified :: "int option"
  profile_fields :: "string \<rightharpoonup> string"

text \<open>
  A snapshot. A collection that is absent, or is not an array, is \<open>None\<close>: the
  engine tests \<^verbatim>\<open>remoteData.x && Array.isArray(remoteData.x)\<close> on the remote side
  and reads \<^verbatim>\<open>localData.x || []\<close> on the local side.
\<close>

record snapshot =
  userProfile :: "profile option"
  transactions :: "entity list option"
  budgets :: "entity list option"
  goals :: "entity list option"
  debtAccounts :: "entity list option"
  creditAccounts :: "entity list option"
  debtCreditTransactions :: "entity list option"
  categories :: "entity list option"
  emergencyFund :: "int option"
  exportedAt :: int

text \<open>
  One constructor per template string pushed onto \<^verbatim>\<open>mergeLog\<close>, carrying the values
  the template interpolates:
  \<^verbatim>\<open>Added transaction: ${description} (${amount})\<close>,
  \<^verbatim>\<open>Updated transaction: ${description}\<close>,
  \<^verbatim>\<open>Added budget: ${name}\<close>, \<^verbatim>\<open>Updated budget: ${name}\<close>, and so on;
  \<^verbatim>\<open>Updated emergency fund: $${remoteFund} (was $${localFund})\<close>,
  \<^verbatim>\<open>Kept local emergency fund: $${localFund} (remote had $${remoteFund})\<close>,
  \<^verbatim>\<open>Merged user profile settings\<close>.
\<close>

datatype log_entry =
    AddedTransaction string int
  | UpdatedTransaction string
  | AddedBudget string
  | UpdatedBudget string
  | AddedGoal string
  | UpdatedGoal string
  | AddedUserCategory string
  | UpdatedUserCategory string
  | AddedDebtAccount string
  | UpdatedDebtAccount string
  | AddedCreditAccount string
  | UpdatedCreditAccount string
  | AddedDebtCreditTransaction string
  | UpdatedEmergencyFund int int
  | KeptLocalEmergencyFund int int
  | MergedUserProfile

record merge_result =
  merged :: snapshot
  conflicts :: "string list"
  mergeLog :: "log_entry list"

section \<open>The merge engine\<close>

text \<open>
  \<^verbatim>\<open>a || d\<close> on a number that may be undefined: \<^verbatim>\<open>undefined\<close> and \<^verbatim>\<open>0\<close> are
  falsy and give \<open>d\<close>.
\<close>

fun or_num :: "int option \<Rightarrow> int \<Rightarrow> int" where
  "or_num None d = d"
| "or_num (Some n) d = (if n = 0 then d else n)"

text \<open>
  \<^verbatim>\<open>const getTimestamp = (item) =>
      item?.lastModified || item?.timeEquivalent || item?.createdAt || 0\<close>
\<close>

definition getTimestamp :: "entity \<Rightarrow> int" where
  "getTimestamp item =
     or_num (lastModified item) (or_num (timeEquivalent item) (or_num (createdAt item) 0))"

text \<open>\<^verbatim>\<open>localData.x || []\<close>\<close>

fun or_empty :: "'a list option \<Rightarrow> 'a list" where
  "or_empty None = []"
| "or_empty (Some xs) = xs"

text \<open>
  \<^verbatim>\<open>new Map(items.map(t => [t.id, t]))\<close>: of two entries with one key the later
  one stays. \<open>localMap k = None\<close> is \<^verbatim>\<open>!localMap.has(k)\<close>.
\<close>

definition Map_of :: "entity list \<Rightarrow> (string \<rightharpoonup> entity)" where
  "Map_of items = map_of (rev (map (\<lambda>t. (id' t, t)) items))"

text \<open>\<^verbatim>\<open>Array.prototype.findIndex\<close>; \<open>None\<close> is the result \<^verbatim>\<open>-1\<close>.\<close>

fun findIndex :: "('a \<Rightarrow> bool) \<Rightarrow> 'a list \<Rightarrow> nat option" where
  "findIndex P [] = None"
| "findIndex P (x # xs) = (if P x then Some 0 else map_option Suc (findIndex P xs))"

text \<open>
  The body of the loop \<^verbatim>\<open>for (const remote of remoteItems)\<close>, which the source
  repeats for transactions, budgets, goals, user categories, debt accounts and credit
  accounts with a different pair of log messages each time.
\<close>

definition merge_step ::
  "(string \<rightharpoonup> entity) \<Rightarrow> (entity \<Rightarrow> log_entry) \<Rightarrow> (entity \<Rightarrow> log_entry) \<Rightarrow>
   entity \<Rightarrow> entity list \<times> log_entry list \<Rightarrow> entity list \<times> log_entry list" where
  "merge_step localMap added updated remote acc =
     (case acc of (mergedItems, log) \<Rightarrow>
        (case localMap (id' remote) of
           None \<Rightarrow> (mergedItems @ [remote], log @ [added remote])
         | Some localVersion \<Rightarrow>
             if getTimestamp remote > getTimestamp localVersion then
               (case findIndex (\<lambda>t. id' t = id' remote) mergedItems of
                  Some index \<Rightarrow> (mergedItems[index := remote], log @ [updated remote])
                | None \<Rightarrow> (mergedItems, log))
             else (mergedItems, log)))"

definition merge_collection ::
  "(entity \<Rightarrow> log_entry) \<Rightarrow> (entity \<Rightarrow> log_entry) \<Rightarrow>
   entity list \<Rightarrow> entity list \<Rightarrow> log_entry list \<Rightarrow> entity list \<times> log_entry list" where
  "merge_collection added updated localItems remoteItems log =
     fold (merge_step (Map_of localItems) added updated) remoteItems (localItems, log)"

text \<open>
  The loop of the debt/credit transactions: an entry whose id is known locally is
  skipped (\<^verbatim>\<open>// Note: We don't update existing transactions to avoid conflicts\<close>).
\<close>

definition append_step ::
  "(string \<rightharpoonup> entity) \<Rightarrow> entity \<Rightarrow> entity list \<times> log_entry list \<Rightarrow>
   entity list \<times> log_entry list" where
  "append_step localMap remote acc =
     (case acc of (mergedItems, log) \<Rightarrow>
        (case localMap (id' remote) of
           None \<Rightarrow> (mergedItems @ [remote], log @ [AddedDebtCreditTransaction (description remote)])
         | Some localVersion \<Rightarrow> (mergedItems, log)))"

definition append_collection ::
  "entity list \<Rightarrow> entity list \<Rightarrow> log_entry list \<Rightarrow> entity list \<times> log_entry list" where
  "append_collection localItems remoteItems log =
     fold (append_step (Map_of localItems)) remoteItems (localItems, log)"

text \<open>
  The sections of \<^verbatim>\<open>mergeWalletData\<close>, in the order of the source. Each takes the
  two inputs and the pair of the mutable locals \<^verbatim>\<open>merged\<close> and \<^verbatim>\<open>mergeLog\<close>.
\<close>

definition mergeTransactions ::
  "snapshot \<Rightarrow> snapshot \<Rightarrow> snapshot \<times> log_entry list \<Rightarrow> snapshot \<times> log_entry list" where
  "mergeTransactions localData remoteData st =
     (case st of (m, log) \<Rightarrow>
        (case transactions remoteData of
           None \<Rightarrow> (m, log)
         | Some remoteTransactions \<Rightarrow>
             (case merge_collection (\<lambda>r. AddedTransaction (description r) (amount r))
                     (\<lambda>r. UpdatedTransaction (description r))
                     (or_empty (transactions localData)) remoteTransactions log of
                (mergedTransactions, log') \<Rightarrow>
                  (m\<lparr>transactions := Some mergedTransactions\<rparr>, log'))))"

definition mergeBudgets ::
  "snapshot \<Rightarrow> snapshot \<Rightarrow> snapshot \<times> log_entry list \<Rightarrow> snapshot \<times> log_entry list" where
  "mergeBudgets localData remoteData st =
     (case st of (m, log) \<Rightarrow>
        (case budgets remoteData of
           None \<Rightarrow> (m, log)
         | Some remoteBudgets \<Rightarrow>
             (case merge_collection (\<lambda>r. AddedBudget (name r)) (\<lambda>r. UpdatedBudget (name r))
                     (or_empty (budgets localData)) remoteBudgets log of
                (mergedBudgets, log') \<Rightarrow> (m\<lparr>budgets := Some mergedBudgets\<rparr>, log'))))"

definition mergeGoals ::
  "snapshot \<Rightarrow> snapshot \<Rightarrow> snapshot \<times> log_entry list \<Rightarrow> snapshot \<times> log_entry list" where
  "mergeGoals localData remoteData st =
     (case st of (m, log) \<Rightarrow>
        (case goals remoteData of
           None \<Rightarrow> (m, log)
         | Some remoteGoals \<Rightarrow>
             (case merge_collection (\<lambda>r. AddedGoal (name r)) (\<lambda>r. UpdatedGoal (name r))
                     (or_empty (goals localData)) remoteGoals log of
                (mergedGoals, log') \<Rightarrow> (m\<lparr>goals := Some mergedGoals\<rparr>, log'))))"

definition mergeCategories ::
  "snapshot \<Rightarrow> snapshot \<Rightarrow> snapshot \<times> log_entry list \<Rightarrow> snapshot \<times> log_entry list" where
  "mergeCategories localData remoteData st =
     (case st of (m, log) \<Rightarrow>
        (case categories remoteData of
           None \<Rightarrow> (m, log)
         | Some remoteCategories \<Rightarrow>
             (let localCategories = or_empty (categories localData);
                  localUserCategories = filter (\<lambda>c. \<not> isDefault c) localCategories;
                  remoteUserCategories = filter (\<lambda>c. \<not> isDefault c) remoteCategories
              in case merge_collection (\<lambda>r. AddedUserCategory (name r))
                        (\<lambda>r. UpdatedUserCategory (name r))
                        localUserCategories remoteUserCategories log of
                   (mergedCategories, log') \<Rightarrow>
                     (let defaultCategories = filter (\<lambda>c. isDefault c) localCategories
                      in (m\<lparr>categories := Some (defaultCategories @ mergedCategories)\<rparr>,
                          log')))))"

definition mergeDebtAccounts ::
  "snapshot \<Rightarrow> snapshot \<Rightarrow> snapshot \<times> log_entry list \<Rightarrow> snapshot \<times> log_entry list" where
  "mergeDebtAccounts localData remoteData st =
     (case st of (m, log) \<Rightarrow>
        (case debtAccounts remoteData of
           None \<Rightarrow> (m, log)
         | Some remoteDebtAccounts \<Rightarrow>
             (case merge_collection (\<lambda>r. AddedDebtAccount (name r))
                     (\<lambda>r. UpdatedDebtAccount (name r))
                     (or_empty (debtAccounts localData)) remoteDebtAccounts log of
                (mergedDebtAccounts, log') \<Rightarrow>
                  (m\<lparr>debtAccounts := Some mergedDebtAccounts\<rparr>, log'))))"

definition mergeCreditAccounts ::
  "snapshot \<Rightarrow> snapshot \<Rightarrow> snapshot \<times> log_entry list \<Rightarrow> snapshot \<times> log_entry list" where
  "mergeCreditAccounts localData remoteData st =
     (case st of (m, log) \<Rightarrow>
        (case creditAccounts remoteData of
           None \<Rightarrow> (m, log)
         | Some remoteCreditAccounts \<Rightarrow>
             (case merge_collection (\<lambda>r. AddedCreditAccount (name r))
                     (\<lambda>r. UpdatedCreditAccount (name r))
                     (or_empty (creditAccounts localData)) remoteCreditAccounts log of
                (mergedCreditAccounts, log') \<Rightarrow>
                  (m\<lparr>creditAccounts := Some mergedCreditAccounts\<rparr>, log'))))"

definition mergeDebtCreditTransactions ::
  "snapshot \<Rightarrow> snapshot \<Rightarrow> snapshot \<times> log_entry list \<Rightarrow> snapshot \<times> log_entry list" where
  "mergeDebtCreditTransactions localData remoteData st =
     (case st of (m, log) \<Rightarrow>
        (case debtCreditTransactions remoteData of
           None \<Rightarrow> (m, log)
         | Some remoteTransactions \<Rightarrow>
             (case append_collection (or_empty (debtCreditTransactions localData))
                     remoteTransactions log of
                (mergedTransactions, log') \<Rightarrow>
                  (m\<lparr>debtCreditTransactions := Some mergedTransactions\<rparr>, log'))))"

text \<open>
  \<^verbatim>\<open>if (remoteData.emergencyFund !== undefined) { const localFund =
  localData.emergencyFund || 0 ... }\<close>: the remote value is written only when it is
  strictly greater; on the other branches \<^verbatim>\<open>merged.emergencyFund\<close> keeps what the
  spread of \<^verbatim>\<open>localData\<close> put there.
\<close>

definition mergeEmergencyFund ::
  "snapshot \<Rightarrow> snapshot \<Rightarrow> snapshot \<times> log_entry list \<Rightarrow> snapshot \<times> log_entry list" where
  "mergeEmergencyFund localData remoteData st =
     (case st of (m, log) \<Rightarrow>
        (case emergencyFund remoteData of
           None \<Rightarrow> (m, log)
         | Some remoteFund \<Rightarrow>
             (let localFund = or_num (emergencyFund localData) 0
              in if remoteFund > localFund then
                   (m\<lparr>emergencyFund := Some remoteFund\<rparr>,
                    log @ [UpdatedEmergencyFund remoteFund localFund])
                 else if remoteFund < localFund then
                   (m, log @ [KeptLocalEmergencyFund localFund remoteFund])
                 else (m, log))))"

text \<open>
  \<^verbatim>\<open>merged.userProfile = { ...localData.userProfile, ...remoteData.userProfile,
  lastModified: Math.max(localData.userProfile?.lastModified || 0,
  remoteData.userProfile.lastModified || 0) }\<close>
\<close>

definition mergeUserProfile ::
  "snapshot \<Rightarrow> snapshot \<Rightarrow> snapshot \<times> log_entry list \<Rightarrow> snapshot \<times> log_entry list" where
  "mergeUserProfile localData remoteData st =
     (case st of (m, log) \<Rightarrow>
        (case userProfile remoteData of
           None \<Rightarrow> (m, log)
         | Some remoteProfile \<Rightarrow>
             (let localFields =
                    (case userProfile localData of None \<Rightarrow> Map.empty
                     | Some p \<Rightarrow> profile_fields p);
                  localModified =
                    (case userProfile localData of None \<Rightarrow> 0
                     | Some p \<Rightarrow> or_num (profile_lastModified p) 0)
              in (m\<lparr>userProfile := Some
                      \<lparr>profile_lastModified =
                         Some (max localModified (or_num (profile_lastModified remoteProfile) 0)),
                       profile_fields = localFields ++ profile_fields remoteProfile\<rparr>\<rparr>,
                  log @ [MergedUserProfile]))))"

definition mergeWalletData :: "snapshot \<Rightarrow> snapshot \<Rightarrow> merge_result" where
  "mergeWalletData localData remoteData =
     (case mergeUserProfile localData remoteData
            (mergeEmergencyFund localData remoteData
              (mergeDebtCreditTransactions localData remoteData
                (mergeCreditAccounts localData remoteData
                  (mergeDebtAccounts localData remoteData
                    (mergeCategories localData remoteData
                      (mergeGoals localData remoteData
                        (mergeBudgets localData remoteData
                          (mergeTransactions localData remoteData (localData, []))))))))) of
        (m, log) \<Rightarrow> \<lparr>merged = m, conflicts = [], mergeLog = log\<rparr>)"

section \<open>The salt of the key derivation\<close>

text \<open>
  A JavaScript string is a sequence of UTF-16 code units, here natural numbers below
  \<open>0x10000\<close>. \<open>ascii\<close> is a string literal of the source.
\<close>

type_synonym jsstring = "nat list"

definition ascii :: "string \<Rightarrow> jsstring" where
  "ascii s = map of_char s"

text \<open>
  \<^verbatim>\<open>new TextEncoder().encode(s)\<close>, a function of the platform, after the Encoding
  standard: the code units are read as scalar values (a surrogate pair gives one value
  above \<open>0xFFFF\<close>, a surrogate on its own gives \<open>U+FFFD\<close>), and each scalar value
  is written as one to four bytes of UTF-8.
\<close>

definition high_surrogate :: "nat \<Rightarrow> bool" where
  "high_surrogate u = (0xD800 \<le> u \<and> u < 0xDC00)"

definition low_surrogate :: "nat \<Rightarrow> bool" where
  "low_surrogate u = (0xDC00 \<le> u \<and> u < 0xE000)"

fun scalar_values :: "jsstring \<Rightarrow> nat list" where
  "scalar_values (u # v # us) =
     (if high_surrogate u \<and> low_surrogate v
        then (0x10000 + (u - 0xD800) * 0x400 + (v - 0xDC00)) # scalar_values us
      else if high_surrogate u \<or> low_surrogate u then 0xFFFD # scalar_values (v # us)
      else u # scalar_values (v # us))"
| "scalar_values [u] = (if high_surrogate u \<or> low_surrogate u then [0xFFFD] else [u])"
| "scalar_values [] = []"

definition utf8 :: "nat \<Rightarrow> 8 word list" where
  "utf8 cp =
     (if cp < 0x80 then [of_nat cp]
      else if cp < 0x800 then [of_nat (0xC0 + cp div 0x40), of_nat (0x80 + cp mod 0x40)]
      else if cp < 0x10000 then
        [of_nat (0xE0 + cp div 0x1000), of_nat (0x80 + cp div 0x40 mod 0x40),
         of_nat (0x80 + cp mod 0x40)]
      else
        [of_nat (0xF0 + cp div 0x40000), of_nat (0x80 + cp div 0x1000 mod 0x40),
         of_nat (0x80 + cp div 0x40 mod 0x40), of_nat (0x80 + cp mod 0x40)])"

definition encode :: "jsstring \<Rightarrow> 8 word list" where
  "encode s = concat (map utf8 (scalar_values s))"

text \<open>
  \<^verbatim>\<open>const userData = `${userId}_${userEmail}_convex_sync_salt`
  const data = encoder.encode(userData)
  return new Uint8Array(data.slice(0, 32))\<close>
\<close>

definition generateConsistentSalt :: "jsstring \<Rightarrow> jsstring \<Rightarrow> 8 word list" where
  "generateConsistentSalt userId userEmail =
     (let userData = userId @ ascii ''_'' @ userEmail @ ascii ''_convex_sync_salt'';
          data = encode userData
      in take 32 data)"

section \<open>Numbers in the local storage\<close>

text \<open>
  \<^verbatim>\<open>now.toString()\<close> for an integer: the decimal digits, after a minus sign for a
  negative number.
\<close>

definition digit_char :: "nat \<Rightarrow> char" where
  "digit_char d = char_of (48 + d)"

function show_nat :: "nat \<Rightarrow> string" where
  "show_nat n = (if n < 10 then [digit_char n] else show_nat (n div 10) @ [digit_char (n mod 10)])"
  by pat_completeness auto
termination
  by (relation "measure (\<lambda>n. n)") auto

declare show_nat.simps [simp del]

definition toString :: "int \<Rightarrow> string" where
  "toString i = (if i < 0 then CHR ''-'' # show_nat (nat (- i)) else show_nat (nat i))"

text \<open>
  \<^verbatim>\<open>parseInt(s)\<close> with no radix: white space in front is skipped, a sign is read, a
  prefix \<^verbatim>\<open>0x\<close> or \<^verbatim>\<open>0X\<close> selects base 16, and the longest run of digits that follows
  is the value; with no digit the result is \<^verbatim>\<open>NaN\<close>, here \<open>None\<close>.
\<close>

definition is_space :: "char \<Rightarrow> bool" where
  "is_space c = (of_char c \<in> {9, 10, 11, 12, 13, 32 :: nat})"

definition digit_value :: "nat \<Rightarrow> char \<Rightarrow> nat option" where
  "digit_value radix c =
     (let k = of_char c :: nat;
          v = (if 48 \<le> k \<and> k \<le> 57 then Some (k - 48)
               else if 97 \<le> k \<and> k \<le> 122 then Some (k - 87)
               else if 65 \<le> k \<and> k \<le> 90 then Some (k - 55)
               else None)
      in case v of None \<Rightarrow> None | Some d \<Rightarrow> if d < radix then Some d else None)"

fun read_digits :: "nat \<Rightarrow> string \<Rightarrow> nat \<Rightarrow> nat" where
  "read_digits radix [] acc = acc"
| "read_digits radix (c # cs) acc =
     (case digit_value radix c of
        None \<Rightarrow> acc
      | Some d \<Rightarrow> read_digits radix cs (acc * radix + d))"

definition read_number :: "nat \<Rightarrow> string \<Rightarrow> nat option" where
  "read_number radix s =
     (case s of
        [] \<Rightarrow> None
      | c # cs \<Rightarrow> (case digit_value radix c of None \<Rightarrow> None
                   | Some d \<Rightarrow> Some (read_digits radix s 0)))"

definition read_unsigned :: "string \<Rightarrow> nat option" where
  "read_unsigned s =
     (case s of
        c # x # rest \<Rightarrow>
          if c = CHR ''0'' \<and> (x = CHR ''x'' \<or> x = CHR ''X'') then read_number 16 rest
          else read_number 10 s
      | _ \<Rightarrow> read_number 10 s)"

definition parseInt :: "string \<Rightarrow> int option" where
  "parseInt s =
     (case dropWhile is_space s of
        [] \<Rightarrow> None
      | c # cs \<Rightarrow>
          if c = CHR ''-'' then map_option (\<lambda>n. - int n) (read_unsigned cs)
          else if c = CHR ''+'' then map_option int (read_unsigned cs)
          else map_option int (read_unsigned (c # cs)))"

section \<open>The sync orchestrator\<close>

record SyncState =
  isEnabled :: bool
  isPaused :: bool
  isSyncing :: bool
  lastSyncTime :: "int option"
  error :: "string option"

text \<open>The initial state of the hook, to which \<^verbatim>\<open>disableSync\<close> resets.\<close>

definition initial_SyncState :: SyncState where
  "initial_SyncState =
     \<lparr>isEnabled = False, isPaused = False, isSyncing = False, lastSyncTime = None,
      error = None\<rparr>"

record user_info =
  user_id :: jsstring
  email :: jsstring

text \<open>The record returned by the query \<^verbatim>\<open>getLatestWalletData\<close>.\<close>

record remote_record =
  encryptedData :: string
  record_lastModified :: int

record store_args =
  store_userId :: jsstring
  store_deviceId :: string
  store_encryptedData :: string
  store_dataHash :: string
  store_version :: string

record metadata_args =
  meta_userId :: jsstring
  meta_deviceId :: string
  meta_deviceName :: string
  meta_syncVersion :: string

text \<open>
  What the hook does to the outside, in the order in which it does it: the two entry
  points of the codec, the two mutations of the remote store, the import into the local
  store, and the toasts (by title).
\<close>

datatype call =
    EncryptWalletData snapshot jsstring
  | DecryptWalletData string jsstring
  | StoreWalletData store_args
  | UpdateSyncMetadata metadata_args
  | ImportData snapshot
  | Toast string

text \<open>
  What the hook reads from its surroundings during one run of one of its functions: the
  values of the hooks \<^verbatim>\<open>useConvexAuth\<close>, \<^verbatim>\<open>useWalletData\<close> and \<^verbatim>\<open>useQuery\<close> that the
  closure holds, the clock, the browser, and the answers of the collaborators whose code
  is not part of the hook (\<^verbatim>\<open>SecureWallet\<close>, \<^verbatim>\<open>JSON\<close>, the Convex mutations,
  \<^verbatim>\<open>importData\<close>). A collaborator that throws answers \<open>None\<close>; a mutation that
  rejects answers \<open>Some message\<close> with the message of its error, the empty string for
  an error without message. One reading \<open>dateNow\<close> stands for every \<^verbatim>\<open>Date.now()\<close> of
  the run.
\<close>

record env =
  isAuthenticated :: bool
  authLoading :: bool
  user :: "user_info option"
  wallet :: snapshot
  getLatestWalletData :: "remote_record option"
  dateNow :: int
  userAgent :: string
  newDeviceId :: string
  stringify :: "snapshot \<Rightarrow> string"
  parse :: "string \<Rightarrow> snapshot option"
  deriveKeyFromPin :: "jsstring \<Rightarrow> 8 word list \<Rightarrow> 8 word list option"
  encryptData :: "string \<Rightarrow> 8 word list \<Rightarrow> string option"
  decryptData :: "string \<Rightarrow> 8 word list \<Rightarrow> string option"
  generateIntegrityHash :: "string \<Rightarrow> string option"
  storeWalletDataMutation :: "store_args \<Rightarrow> string option"
  updateSyncMetadataMutation :: "metadata_args \<Rightarrow> string option"
  importData :: "snapshot \<Rightarrow> bool option"

text \<open>
  What the hook changes: its \<^verbatim>\<open>SyncState\<close>, the \<^verbatim>\<open>localStorage\<close> of the browser, and
  the list of the calls made so far.
\<close>

record world =
  syncState :: SyncState
  localStorage :: "string \<rightharpoonup> string"
  calls :: "call list"

text \<open>The object a function of the hook returns.\<close>

record result =
  success :: bool
  result_error :: "string option"
  message :: "string option"
  data :: "merge_result option"

definition ok :: result where
  "ok = \<lparr>success = True, result_error = None, message = None, data = None\<rparr>"

definition failed :: "string \<Rightarrow> result" where
  "failed e = \<lparr>success = False, result_error = Some e, message = None, data = None\<rparr>"

text \<open>\<^verbatim>\<open>!value\<close> on what \<^verbatim>\<open>localStorage.getItem\<close> returns: \<^verbatim>\<open>null\<close> or the empty string.\<close>

fun missing :: "string option \<Rightarrow> bool" where
  "missing None = True"
| "missing (Some v) = (v = [])"

text \<open>\<^verbatim>\<open>error.message || fallback\<close>\<close>

definition or_message :: "string \<Rightarrow> string \<Rightarrow> string" where
  "or_message m fallback = (if m = [] then fallback else m)"

text \<open>\<^verbatim>\<open>String.prototype.includes\<close>\<close>

fun includes_str :: "string \<Rightarrow> string \<Rightarrow> bool" where
  "includes_str [] sub = (sub = [])"
| "includes_str (c # cs) sub = (prefix sub (c # cs) \<or> includes_str cs sub)"

definition browser_of :: "string \<Rightarrow> string" where
  "browser_of ua =
     (if includes_str ua ''Chrome'' then ''Chrome''
      else if includes_str ua ''Firefox'' then ''Firefox''
      else if includes_str ua ''Safari'' \<and> \<not> includes_str ua ''Chrome'' then ''Safari''
      else if includes_str ua ''Edge'' then ''Edge''
      else ''Browser'')"

definition os_of :: "string \<Rightarrow> string" where
  "os_of ua =
     (if includes_str ua ''Windows'' then ''Windows''
      else if includes_str ua ''Mac'' then ''macOS''
      else if includes_str ua ''Linux'' then ''Linux''
      else if includes_str ua ''Android'' then ''Android''
      else if includes_str ua ''iPhone'' \<or> includes_str ua ''iPad'' then ''iOS''
      else ''Device'')"

text \<open>
  \<^verbatim>\<open>getDeviceInfo\<close>. The new identifier
  \<^verbatim>\<open>`device_${Date.now()}_${Math.random().toString(36).substr(2, 9)}`\<close> is the input
  \<open>newDeviceId\<close>.
\<close>

definition getDeviceInfo :: "env \<Rightarrow> world \<Rightarrow> (string \<times> string) \<times> world" where
  "getDeviceInfo e w =
     (let deviceId =
            (if missing (localStorage w ''convex_device_id'') then newDeviceId e
             else the (localStorage w ''convex_device_id''));
          w1 = (if missing (localStorage w ''convex_device_id'')
                then w\<lparr>localStorage := (localStorage w)(''convex_device_id'' \<mapsto> deviceId)\<rparr>
                else w);
          deviceName =
            (if missing (localStorage w1 ''convex_device_name'')
             then browser_of (userAgent e) @ '' on '' @ os_of (userAgent e)
             else the (localStorage w1 ''convex_device_name''));
          w2 = (if missing (localStorage w1 ''convex_device_name'')
                then w1\<lparr>localStorage := (localStorage w1)(''convex_device_name'' \<mapsto> deviceName)\<rparr>
                else w1)
      in ((deviceId, deviceName), w2))"

text \<open>
  \<^verbatim>\<open>encryptWalletData\<close> and \<^verbatim>\<open>decryptWalletData\<close>: whatever is thrown inside is caught
  and thrown again as \<^verbatim>\<open>Encryption failed\<close> or \<^verbatim>\<open>Decryption failed\<close>; \<open>Inl\<close> is the
  message of the error thrown.
\<close>

definition encryptWalletData ::
  "env \<Rightarrow> snapshot \<Rightarrow> jsstring \<Rightarrow> world \<Rightarrow> (string + string \<times> string) \<times> world" where
  "encryptWalletData e d password w =
     (let w1 = w\<lparr>calls := calls w @ [EncryptWalletData d password]\<rparr>;
          dataString = stringify e d
      in case user e of
           None \<Rightarrow> (Inl ''Encryption failed'', w1)
         | Some u \<Rightarrow>
             (case deriveKeyFromPin e password
                     (generateConsistentSalt (user_id u) (email u)) of
                None \<Rightarrow> (Inl ''Encryption failed'', w1)
              | Some key \<Rightarrow>
                  (case encryptData e dataString key of
                     None \<Rightarrow> (Inl ''Encryption failed'', w1)
                   | Some encrypted \<Rightarrow>
                       (case generateIntegrityHash e dataString of
                          None \<Rightarrow> (Inl ''Encryption failed'', w1)
                        | Some hash \<Rightarrow> (Inr (encrypted, hash), w1)))))"

definition decryptWalletData ::
  "env \<Rightarrow> string \<Rightarrow> jsstring \<Rightarrow> world \<Rightarrow> (string + snapshot) \<times> world" where
  "decryptWalletData e encrypted password w =
     (let w1 = w\<lparr>calls := calls w @ [DecryptWalletData encrypted password]\<rparr>
      in case user e of
           None \<Rightarrow> (Inl ''Decryption failed'', w1)
         | Some u \<Rightarrow>
             (case deriveKeyFromPin e password
                     (generateConsistentSalt (user_id u) (email u)) of
                None \<Rightarrow> (Inl ''Decryption failed'', w1)
              | Some key \<Rightarrow>
                  (case decryptData e encrypted key of
                     None \<Rightarrow> (Inl ''Decryption failed'', w1)
                   | Some decrypted \<Rightarrow>
                       (case parse e decrypted of
                          None \<Rightarrow> (Inl ''Decryption failed'', w1)
                        | Some remoteData \<Rightarrow> (Inr remoteData, w1)))))"

text \<open>\<^verbatim>\<open>password || `convex_sync_${user.id}_${user.email}`\<close>\<close>

definition syncPassword_of :: "jsstring option \<Rightarrow> user_info \<Rightarrow> jsstring" where
  "syncPassword_of password u =
     (case password of
        Some p \<Rightarrow> if p = [] then ascii ''convex_sync_'' @ user_id u @ ascii ''_'' @ email u else p
      | None \<Rightarrow> ascii ''convex_sync_'' @ user_id u @ ascii ''_'' @ email u)"

text \<open>The \<^verbatim>\<open>catch\<close> clause of \<^verbatim>\<open>syncToConvex\<close>.\<close>

definition upload_failed :: "string \<Rightarrow> world \<Rightarrow> result \<times> world" where
  "upload_failed m w =
     (failed m,
      w\<lparr>syncState := (syncState w)\<lparr>isSyncing := False, error := Some (or_message m ''Sync failed'')\<rparr>\<rparr>)"

text \<open>
  \<^verbatim>\<open>syncToConvex\<close>. The object uploaded has no \<^verbatim>\<open>debtCreditTransactions\<close> and only the
  categories that are not default ones. \<^verbatim>\<open>categories.filter\<close> stands inside the \<^verbatim>\<open>try\<close>
  block: without an array of categories it throws a \<^verbatim>\<open>TypeError\<close>, which the \<^verbatim>\<open>catch\<close>
  clause reports like any other failure.
\<close>

definition syncToConvex :: "env \<Rightarrow> jsstring option \<Rightarrow> world \<Rightarrow> result \<times> world" where
  "syncToConvex e password w =
     (case user e of
        None \<Rightarrow> (failed ''Sync not enabled or user not authenticated'', w)
      | Some u \<Rightarrow>
          if \<not> isAuthenticated e \<or> \<not> isEnabled (syncState w)
          then (failed ''Sync not enabled or user not authenticated'', w)
          else
            (let syncPassword = syncPassword_of password u;
                 w1 = w\<lparr>syncState := (syncState w)\<lparr>isSyncing := True, error := None\<rparr>\<rparr>
             in case categories (wallet e) of
                  None \<Rightarrow> upload_failed ''TypeError'' w1
                | Some allCategories \<Rightarrow>
                    (let userCreatedCategories = filter (\<lambda>cat. \<not> isDefault cat) allCategories;
                         walletData =
                           (wallet e)\<lparr>categories := Some userCreatedCategories,
                                      debtCreditTransactions := None, exportedAt := dateNow e\<rparr>
                     in case encryptWalletData e walletData syncPassword w1 of
                         (Inl m, w2) \<Rightarrow> upload_failed m w2
                       | (Inr (encrypted, hash), w2) \<Rightarrow>
                           (case getDeviceInfo e w2 of
                              ((deviceId, deviceName), w3) \<Rightarrow>
                                (let args = \<lparr>store_userId = user_id u, store_deviceId = deviceId,
                                             store_encryptedData = encrypted, store_dataHash = hash,
                                             store_version = ''1.0''\<rparr>;
                                     w4 = w3\<lparr>calls := calls w3 @ [StoreWalletData args]\<rparr>
                                 in case storeWalletDataMutation e args of
                                      Some m \<Rightarrow> upload_failed m w4
                                    | None \<Rightarrow>
                                        (let margs = \<lparr>meta_userId = user_id u, meta_deviceId = deviceId,
                                                      meta_deviceName = deviceName,
                                                      meta_syncVersion = ''1.0''\<rparr>;
                                             w5 = w4\<lparr>calls := calls w4 @ [UpdateSyncMetadata margs]\<rparr>
                                         in case updateSyncMetadataMutation e margs of
                                              Some m \<Rightarrow> upload_failed m w5
                                            | None \<Rightarrow>
                                                (ok,
                                                 w5\<lparr>localStorage :=
                                                       (localStorage w5)
                                                         (''convex_last_sync_time'' \<mapsto> toString (dateNow e)),
                                                     syncState :=
                                                       (syncState w5)\<lparr>isSyncing := False,
                                                         lastSyncTime := Some (dateNow e)\<rparr>\<rparr>)))))))"

text \<open>
  The loop at the head of \<^verbatim>\<open>enableSync\<close>: \<^verbatim>\<open>while (authLoading && attempts <
  maxAttempts) { await ...; attempts++ }\<close> with \<^verbatim>\<open>maxAttempts = 50\<close>. The closure
  holds one value of \<^verbatim>\<open>authLoading\<close>, so the loop only counts.
\<close>

function wait_for_auth :: "bool \<Rightarrow> nat \<Rightarrow> nat" where
  "wait_for_auth loading attempts =
     (if loading \<and> attempts < 50 then wait_for_auth loading (attempts + 1) else attempts)"
  by pat_completeness auto
termination
  by (relation "measure (\<lambda>(loading, attempts). 50 - attempts)") auto

declare wait_for_auth.simps [simp del]

text \<open>
  \<^verbatim>\<open>enableSync\<close>. The first upload is made by \<^verbatim>\<open>syncToConvex\<close>, which catches its own
  errors, and its result is not read.
\<close>

definition enableSync :: "env \<Rightarrow> world \<Rightarrow> result \<times> world" where
  "enableSync e w =
     (let attempts = wait_for_auth (authLoading e) 0
      in case user e of
           None \<Rightarrow> (failed ''User not authenticated'', w)
         | Some u \<Rightarrow>
             if \<not> isAuthenticated e then (failed ''User not authenticated'', w)
             else
               (let w1 = w\<lparr>syncState := (syncState w)\<lparr>isSyncing := True, error := None\<rparr>\<rparr>;
                    syncPassword = ascii ''convex_sync_'' @ user_id u @ ascii ''_'' @ email u;
                    w2 = snd (syncToConvex e (Some syncPassword) w1);
                    w3 = w2\<lparr>localStorage := (localStorage w2)(''convex_sync_enabled'' \<mapsto> ''true'')\<rparr>
                in (ok, w3\<lparr>syncState := (syncState w3)\<lparr>isEnabled := True, isSyncing := False\<rparr>\<rparr>)))"

text \<open>\<^verbatim>\<open>disableSync\<close>\<close>

definition disableSync :: "world \<Rightarrow> result \<times> world" where
  "disableSync w =
     (ok,
      w\<lparr>localStorage :=
           (localStorage w)(''convex_sync_enabled'' := None, ''convex_sync_password'' := None,
                            ''convex_last_sync_time'' := None),
        syncState :=
          \<lparr>isEnabled = False, isPaused = False, isSyncing = False, lastSyncTime = None,
           error = None\<rparr>,
        calls := calls w @ [Toast ''Convex Sync Disabled'']\<rparr>)"

text \<open>\<^verbatim>\<open>pauseSync\<close> and \<^verbatim>\<open>resumeSync\<close>\<close>

definition pauseSync :: "world \<Rightarrow> result \<times> world" where
  "pauseSync w =
     (ok,
      w\<lparr>syncState := (syncState w)\<lparr>isPaused := True\<rparr>,
        localStorage := (localStorage w)(''convex_sync_paused'' \<mapsto> ''true''),
        calls := calls w @ [Toast ''Auto Sync Paused'']\<rparr>)"

definition resumeSync :: "world \<Rightarrow> result \<times> world" where
  "resumeSync w =
     (ok,
      w\<lparr>syncState := (syncState w)\<lparr>isPaused := False\<rparr>,
        localStorage := (localStorage w)(''convex_sync_paused'' := None),
        calls := calls w @ [Toast ''Auto Sync Resumed'']\<rparr>)"

text \<open>
  \<^verbatim>\<open>syncFromConvex\<close>, from the point where the user is known and sync is enabled: the
  \<^verbatim>\<open>try\<close> block and its \<^verbatim>\<open>catch\<close> clause. On the two paths where the import does not
  succeed the source returns without a \<^verbatim>\<open>setSyncState\<close>.
\<close>

definition download :: "env \<Rightarrow> jsstring \<Rightarrow> world \<Rightarrow> result \<times> world" where
  "download e syncPassword w =
     (let w1 = w\<lparr>syncState := (syncState w)\<lparr>isSyncing := True, error := None\<rparr>\<rparr>
      in case getLatestWalletData e of
           None \<Rightarrow>
             (ok\<lparr>message := Some ''No remote data to sync''\<rparr>,
              w1\<lparr>syncState := (syncState w1)\<lparr>isSyncing := False\<rparr>\<rparr>)
         | Some latestData \<Rightarrow>
             (case decryptWalletData e (encryptedData latestData) syncPassword w1 of
                (Inl m, w2) \<Rightarrow>
                  (failed (or_message m ''Download failed''),
                   w2\<lparr>syncState :=
                        (syncState w2)\<lparr>isSyncing := False,
                          error := Some (or_message m ''Download failed'')\<rparr>\<rparr>)
              | (Inr remoteData, w2) \<Rightarrow>
                  (let localData = (wallet e)\<lparr>exportedAt := dateNow e\<rparr>;
                       r = mergeWalletData localData remoteData;
                       w3 = w2\<lparr>calls := calls w2 @ [ImportData (merged r)]\<rparr>
                   in case importData e (merged r) of
                        None \<Rightarrow>
                          (failed ''Import failed'', w3\<lparr>calls := calls w3 @ [Toast ''Sync Error'']\<rparr>)
                      | Some False \<Rightarrow>
                          (failed ''Import failed'',
                           w3\<lparr>calls := calls w3 @ [Toast ''Sync Warning'']\<rparr>)
                      | Some True \<Rightarrow>
                          (let w4 = w3\<lparr>localStorage :=
                                         (localStorage w3)
                                           (''convex_last_sync_time'' \<mapsto> toString (dateNow e)),
                                       syncState :=
                                         (syncState w3)\<lparr>isSyncing := False,
                                           lastSyncTime := Some (dateNow e)\<rparr>\<rparr>;
                               w5 = (if mergeLog r \<noteq> []
                                     then w4\<lparr>calls := calls w4 @ [Toast ''Smart Sync Complete'']\<rparr>
                                     else w4)
                           in (ok\<lparr>data := Some r\<rparr>, w5)))))"

definition syncFromConvex :: "env \<Rightarrow> jsstring option \<Rightarrow> world \<Rightarrow> result \<times> world" where
  "syncFromConvex e password w =
     (case user e of
        None \<Rightarrow> (failed ''User not authenticated'', w)
      | Some u \<Rightarrow>
          if \<not> isAuthenticated e then (failed ''User not authenticated'', w)
          else if \<not> isEnabled (syncState w) then
            (case enableSync e w of
               (enableResult, w1) \<Rightarrow>
                 if \<not> success enableResult then (failed ''Failed to enable sync'', w1)
                 else download e (syncPassword_of password u) w1)
          else download e (syncPassword_of password u) w)"

text \<open>
  The test \<^verbatim>\<open>!lastSyncTime || (remoteTime && remoteTime > parseInt(lastSyncTime))\<close> of
  the automatic cycle; a comparison with \<^verbatim>\<open>NaN\<close> is false.
\<close>

definition remote_is_newer :: "remote_record \<Rightarrow> string option \<Rightarrow> bool" where
  "remote_is_newer latest lastSync =
     (missing lastSync \<or>
      (record_lastModified latest \<noteq> 0 \<and>
       (case parseInt (the lastSync) of
          None \<Rightarrow> False
        | Some t \<Rightarrow> record_lastModified latest > t)))"

text \<open>
  \<^verbatim>\<open>performSmartSync\<close>, the automatic cycle: upload, then the test, then the download.
  \<^verbatim>\<open>syncToConvex\<close> and \<^verbatim>\<open>syncFromConvex\<close> return their failures, so the \<^verbatim>\<open>catch\<close>
  clause of the cycle has nothing to catch.
\<close>

definition performSmartSync :: "env \<Rightarrow> world \<Rightarrow> world" where
  "performSmartSync e w =
     (case syncToConvex e None w of
        (uploadResult, w1) \<Rightarrow>
          if \<not> success uploadResult then w1
          else
            (case getLatestWalletData e of
               None \<Rightarrow> w1
             | Some latest \<Rightarrow>
                 if remote_is_newer latest (localStorage w1 ''convex_last_sync_time'')
                 then snd (syncFromConvex e None w1)
                 else w1))"

text \<open>
  The effect that starts the cycle: nothing is scheduled when sync is not enabled, the
  user is not authenticated, a sync is running or sync is paused.
\<close>

definition smartSyncEffect :: "env \<Rightarrow> world \<Rightarrow> world" where
  "smartSyncEffect e w =
     (if \<not> isEnabled (syncState w) \<or> \<not> isAuthenticated e \<or> isSyncing (syncState w) \<or>
         isPaused (syncState w)
      then w else performSmartSync e w)"


section \<open>Notions used to state the properties\<close>

text \<open>
  The first component of \<open>merge_step\<close>: what one round of the loop does to the
  array \<^verbatim>\<open>mergedItems\<close>, and the array the loop ends with.
\<close>

definition items_step :: "(string \<rightharpoonup> entity) \<Rightarrow> entity \<Rightarrow> entity list \<Rightarrow> entity list" where
  "items_step localMap remote mergedItems =
     (case localMap (id' remote) of
        None \<Rightarrow> mergedItems @ [remote]
      | Some localVersion \<Rightarrow>
          if getTimestamp remote > getTimestamp localVersion then
            (case findIndex (\<lambda>t. id' t = id' remote) mergedItems of
               Some index \<Rightarrow> mergedItems[index := remote]
             | None \<Rightarrow> mergedItems)
          else mergedItems)"

definition merged_items :: "entity list \<Rightarrow> entity list \<Rightarrow> entity list" where
  "merged_items localItems remoteItems =
     fold (items_step (Map_of localItems)) remoteItems localItems"

text \<open>
  The rule of the specification for an id present on both sides: the remote entry
  when its timestamp is strictly greater, the local entry otherwise.
\<close>

definition resolve :: "entity list \<Rightarrow> entity \<Rightarrow> entity" where
  "resolve remoteItems l =
     (case find (\<lambda>r. id' r = id' l) remoteItems of
        None \<Rightarrow> l
      | Some r \<Rightarrow> if getTimestamp r > getTimestamp l then r else l)"

text \<open>The collections of a snapshot, by name.\<close>

datatype collection =
    Transactions | Budgets | Goals | Categories | DebtAccounts | CreditAccounts
  | DebtCreditTransactions

fun collection_of :: "collection \<Rightarrow> snapshot \<Rightarrow> entity list option" where
  "collection_of Transactions s = transactions s"
| "collection_of Budgets s = budgets s"
| "collection_of Goals s = goals s"
| "collection_of Categories s = categories s"
| "collection_of DebtAccounts s = debtAccounts s"
| "collection_of CreditAccounts s = creditAccounts s"
| "collection_of DebtCreditTransactions s = debtCreditTransactions s"

text \<open>The ids occurring in a collection of a snapshot.\<close>

definition ids_in :: "collection \<Rightarrow> snapshot \<Rightarrow> string set" where
  "ids_in c s = id' ` set (or_empty (collection_of c s))"

text \<open>
  The entries of a collection that take part in the merge: for the categories the
  user-created ones, for every other collection all of them.
\<close>

definition tracked :: "collection \<Rightarrow> snapshot \<Rightarrow> entity list" where
  "tracked c s =
     (if c = Categories then filter (\<lambda>e. \<not> isDefault e) (or_empty (collection_of c s))
      else or_empty (collection_of c s))"

definition tracked_ids :: "collection \<Rightarrow> snapshot \<Rightarrow> string set" where
  "tracked_ids c s = id' ` set (tracked c s)"

text \<open>The log entries about the emergency fund.\<close>

fun is_fund_entry :: "log_entry \<Rightarrow> bool" where
  "is_fund_entry (UpdatedEmergencyFund r l) = True"
| "is_fund_entry (KeptLocalEmergencyFund l r) = True"
| "is_fund_entry e = False"

text \<open>
  What a merge of a snapshot with itself does to the two fields it rewrites: the
  categories are put in the order default entries first, and a profile without a
  \<^verbatim>\<open>lastModified\<close> gets the value 0.
\<close>

definition defaults_first :: "entity list \<Rightarrow> entity list" where
  "defaults_first cs = filter (\<lambda>c. isDefault c) cs @ filter (\<lambda>c. \<not> isDefault c) cs"

definition stamped :: "profile \<Rightarrow> profile" where
  "stamped p = p\<lparr>profile_lastModified := Some (or_num (profile_lastModified p) 0)\<rparr>"

definition self_merged :: "snapshot \<Rightarrow> snapshot" where
  "self_merged s =
     s\<lparr>userProfile := map_option stamped (userProfile s),
       categories := map_option defaults_first (categories s)\<rparr>"

text \<open>A snapshot with nothing in it, to build examples from.\<close>

definition empty_snapshot :: snapshot where
  "empty_snapshot =
     \<lparr>userProfile = None, transactions = None, budgets = None, goals = None,
      debtAccounts = None, creditAccounts = None, debtCreditTransactions = None,
      categories = None, emergencyFund = None, exportedAt = 0\<rparr>"

definition item :: "string \<Rightarrow> int \<Rightarrow> entity" where
  "item k t =
     \<lparr>id' = k, lastModified = Some t, timeEquivalent = None, createdAt = None,
      isDefault = False, name = k, description = k, amount = 0\<rparr>"


text \<open>
  The standing invariant of the data model: within a collection that takes part in the
  timestamp merge, no two entries share an id.
\<close>

definition unique_ids :: "snapshot \<Rightarrow> bool" where
  "unique_ids s =
     list_all (\<lambda>c. distinct (map id' (tracked c s)))
       [Transactions, Budgets, Goals, Categories, DebtAccounts, CreditAccounts]"

text \<open>
  A snapshot on which a merge with itself has nothing to rearrange: no default
  category stands after a user-created one, and the profile, if there is one, has a
  \<^verbatim>\<open>lastModified\<close>.
\<close>

definition normal_form :: "snapshot \<Rightarrow> bool" where
  "normal_form s =
     ((case categories s of None \<Rightarrow> True | Some cs \<Rightarrow> defaults_first cs = cs) \<and>
      (case userProfile s of None \<Rightarrow> True | Some p \<Rightarrow> profile_lastModified p \<noteq> None))"


text \<open>
  The effective timestamp in the words of the specification, where a field counts as
  soon as it is present: \<^verbatim>\<open>lastModified\<close> if present, else \<^verbatim>\<open>timeEquivalent\<close>, else
  \<^verbatim>\<open>createdAt\<close>, else zero. It is compared with \<open>getTimestamp\<close> below.
\<close>

definition present_timestamp :: "entity \<Rightarrow> int" where
  "present_timestamp e =
     (case lastModified e of
        Some t \<Rightarrow> t
      | None \<Rightarrow>
          (case timeEquivalent e of
             Some t \<Rightarrow> t
           | None \<Rightarrow> (case createdAt e of Some t \<Rightarrow> t | None \<Rightarrow> 0)))"

text \<open>A field holds a number other than 0: what \<^verbatim>\<open>||\<close> takes as true.\<close>

fun truthy :: "int option \<Rightarrow> bool" where
  "truthy None = False"
| "truthy (Some n) = (n \<noteq> 0)"

definition default_category :: "string \<Rightarrow> entity" where
  "default_category k = (item k 0)\<lparr>isDefault := True\<rparr>"


text \<open>
  The calls that belong to an upload and those that belong to a download.
\<close>

fun is_upload_call :: "call \<Rightarrow> bool" where
  "is_upload_call (EncryptWalletData d p) = True"
| "is_upload_call (StoreWalletData a) = True"
| "is_upload_call (UpdateSyncMetadata a) = True"
| "is_upload_call c = False"

fun is_download_call :: "call \<Rightarrow> bool" where
  "is_download_call (DecryptWalletData c p) = True"
| "is_download_call (ImportData m) = True"
| "is_download_call c = False"

text \<open>The object \<^verbatim>\<open>localData\<close> that \<^verbatim>\<open>syncFromConvex\<close> hands to the merge.\<close>

definition local_snapshot :: "env \<Rightarrow> snapshot" where
  "local_snapshot e = (wallet e)\<lparr>exportedAt := dateNow e\<rparr>"

text \<open>
  The object \<^verbatim>\<open>walletData\<close> that \<^verbatim>\<open>syncToConvex\<close> encrypts and stores, for a local
  wallet whose array of categories is \<open>allCategories\<close>.
\<close>

definition uploaded_snapshot :: "env \<Rightarrow> entity list \<Rightarrow> snapshot" where
  "uploaded_snapshot e allCategories =
     (wallet e)\<lparr>categories := Some (filter (\<lambda>cat. \<not> isDefault cat) allCategories),
                debtCreditTransactions := None, exportedAt := dateNow e\<rparr>"

text \<open>
  No remote entry with the id of the \<open>i\<close>-th local entry of a collection has a
  strictly greater timestamp than that entry: the remote side is not newer there.
\<close>

definition remote_not_newer :: "collection \<Rightarrow> snapshot \<Rightarrow> snapshot \<Rightarrow> nat \<Rightarrow> bool" where
  "remote_not_newer c localData remoteData i =
     list_all
       (\<lambda>r. id' r = id' (tracked c localData ! i) \<longrightarrow>
            getTimestamp r \<le> getTimestamp (tracked c localData ! i))
       (tracked c remoteData)"

text \<open>An environment and a state of the hook, to build examples from.\<close>

definition example_remote :: snapshot where
  "example_remote = empty_snapshot\<lparr>transactions := Some [item ''t1'' 3, item ''t9'' 8]\<rparr>"

definition example_env :: env where
  "example_env =
     \<lparr>isAuthenticated = True, authLoading = False,
      user = Some \<lparr>user_id = ascii ''u1'', email = ascii ''a@b.c''\<rparr>,
      wallet = empty_snapshot\<lparr>transactions := Some [item ''t1'' 5], categories := Some []\<rparr>,
      getLatestWalletData = Some \<lparr>encryptedData = ''cipher'', record_lastModified = 2000\<rparr>,
      dateNow = 1000, userAgent = ''Firefox Linux'', newDeviceId = ''device_1'',
      stringify = (\<lambda>d. ''json''), parse = (\<lambda>s. Some example_remote),
      deriveKeyFromPin = (\<lambda>p salt. Some salt), encryptData = (\<lambda>d k. Some ''cipher''),
      decryptData = (\<lambda>c k. Some ''json''), generateIntegrityHash = (\<lambda>d. Some ''hash''),
      storeWalletDataMutation = (\<lambda>a. None), updateSyncMetadataMutation = (\<lambda>a. None),
      importData = (\<lambda>m. Some True)\<rparr>"

definition example_world :: world where
  "example_world =
     \<lparr>syncState = initial_SyncState\<lparr>isEnabled := True\<rparr>,
      localStorage = [''convex_sync_enabled'' \<mapsto> ''true'', ''convex_last_sync_time'' \<mapsto> ''500'',
                      ''convex_device_id'' \<mapsto> ''device_1'',
                      ''convex_device_name'' \<mapsto> ''Firefox on Linux''],
      calls = []\<rparr>"


section \<open>Properties of the merge engine\<close>

subsection \<open>The merge loop\<close>



lemma fst_merge_step: "fst (merge_step M a u r acc) = items_step M r (fst acc)"
  by (cases acc) (simp add: merge_step_def items_step_def split: option.split)

lemma fst_fold_merge_step:
  "fst (fold (merge_step M a u) rs acc) = fold (items_step M) rs (fst acc)"
  by (induction rs arbitrary: acc) (simp_all add: fst_merge_step)

lemma fst_merge_collection:
  "fst (merge_collection a u ls rs lg) = merged_items ls rs"
  by (simp add: merge_collection_def merged_items_def fst_fold_merge_step)

lemma findIndex_Some:
  "findIndex P xs = Some i \<Longrightarrow> i < length xs \<and> P (xs ! i) \<and> (\<forall>j<i. \<not> P (xs ! j))"
proof (induction xs arbitrary: i)
  case Nil
  then show ?case by simp
next
  case (Cons x xs)
  show ?case
  proof (cases "P x")
    case True
    with Cons.prems show ?thesis by simp
  next
    case False
    with Cons.prems obtain k where k: "findIndex P xs = Some k" "i = Suc k"
      by auto
    from Cons.IH [OF k(1)] False k(2) show ?thesis
      by (auto simp: less_Suc_eq_0_disj)
  qed
qed

lemma findIndex_None: "findIndex P xs = None \<longleftrightarrow> (\<forall>x\<in>set xs. \<not> P x)"
  by (induction xs) auto

lemma Map_of_None: "Map_of xs k = None \<longleftrightarrow> k \<notin> id' ` set xs"
  by (auto simp: Map_of_def map_of_eq_None_iff image_image)

lemma Map_of_Some: "Map_of xs k = Some v \<Longrightarrow> v \<in> set xs \<and> id' v = k"
  by (auto simp: Map_of_def dest!: map_of_SomeD)

lemma Map_of_distinct:
  assumes "distinct (map id' xs)" "v \<in> set xs"
  shows "Map_of xs (id' v) = Some v"
proof -
  have "distinct (map fst (rev (map (\<lambda>t. (id' t, t)) xs)))"
    using assms(1) by (simp add: rev_map [symmetric] comp_def)
  moreover have "(id' v, v) \<in> set (rev (map (\<lambda>t. (id' t, t)) xs))"
    using assms(2) by auto
  ultimately show ?thesis
    unfolding Map_of_def by (rule map_of_is_SomeI)
qed

lemma ids_items_step:
  "map id' (items_step M r m) = map id' m @ (if M (id' r) = None then [id' r] else [])"
proof (cases "M (id' r)")
  case None
  then show ?thesis by (simp add: items_step_def)
next
  case (Some lv)
  show ?thesis
  proof (cases "findIndex (\<lambda>t. id' t = id' r) m")
    case None
    with Some show ?thesis by (simp add: items_step_def)
  next
    case (Some i)
    from findIndex_Some [OF Some] have "i < length m" "id' (m ! i) = id' r" by auto
    then have "map id' (m[i := r]) = map id' m"
      by (simp add: map_update list_update_same_conv)
    with Some \<open>M (id' r) = Some lv\<close> show ?thesis by (simp add: items_step_def)
  qed
qed

lemma ids_fold_items_step:
  "map id' (fold (items_step M) rs m) = map id' m @ map id' (filter (\<lambda>r. M (id' r) = None) rs)"
  by (induction rs arbitrary: m) (simp_all add: ids_items_step)

lemma ids_merged_items:
  "map id' (merged_items ls rs) = map id' ls @ map id' (filter (\<lambda>r. id' r \<notin> id' ` set ls) rs)"
  by (simp add: merged_items_def ids_fold_items_step Map_of_None)


lemma find_snoc:
  "find P (xs @ [y]) = (case find P xs of None \<Rightarrow> (if P y then Some y else None) | Some x \<Rightarrow> Some x)"
  by (induction xs) simp_all

lemma resolve_id: "id' (resolve rs l) = id' l"
  by (auto simp: resolve_def find_Some_iff split: option.split)

lemma resolve_snoc:
  assumes "id' r \<notin> id' ` set rs"
  shows "resolve (rs @ [r]) l =
           (if id' l = id' r \<and> getTimestamp r > getTimestamp l then r else resolve rs l)"
proof (cases "id' l = id' r")
  case True
  with assms have "find (\<lambda>x. id' x = id' l) rs = None"
    by (auto simp: find_None_iff image_iff)
  with True show ?thesis by (simp add: resolve_def find_snoc)
next
  case False
  then show ?thesis
    by (auto simp: resolve_def find_snoc split: option.split)
qed

lemma findIndex_eqI:
  "i < length xs \<Longrightarrow> P (xs ! i) \<Longrightarrow> (\<And>j. j < i \<Longrightarrow> \<not> P (xs ! j)) \<Longrightarrow> findIndex P xs = Some i"
proof (induction xs arbitrary: i)
  case Nil
  then show ?case by simp
next
  case (Cons x xs)
  show ?case
  proof (cases i)
    case 0
    with Cons.prems show ?thesis by simp
  next
    case (Suc k)
    from Cons.prems(3) [of 0] Suc have nx: "\<not> P x" by simp
    have "findIndex P xs = Some k"
    proof (rule Cons.IH)
      show "k < length xs" using Cons.prems(1) Suc by simp
      show "P (xs ! k)" using Cons.prems(2) Suc by simp
      show "\<not> P (xs ! j)" if "j < k" for j
        using Cons.prems(3) [of "Suc j"] that Suc by simp
    qed
    with nx Suc show ?thesis by simp
  qed
qed

lemma findIndex_by_id:
  assumes "distinct (map id' ls)" "i < length ls" "map id' m = map id' ls @ ks"
  shows "findIndex (\<lambda>t. id' t = id' (ls ! i)) m = Some i"
proof (rule findIndex_eqI)
  have len: "length m = length ls + length ks"
    using arg_cong [OF assms(3), of length] by simp
  show im: "i < length m" using assms(2) len by simp
  have nth_id: "id' (m ! j) = id' (ls ! j)" if "j < length ls" for j
  proof -
    have "id' (m ! j) = map id' m ! j" using that len by simp
    also have "\<dots> = map id' ls ! j" using that by (simp add: assms(3) nth_append)
    finally show ?thesis using that by simp
  qed
  show "id' (m ! i) = id' (ls ! i)" using nth_id assms(2) by simp
  show "id' (m ! j) \<noteq> id' (ls ! i)" if "j < i" for j
  proof -
    have "j < length ls" "j \<noteq> i" using that assms(2) by simp_all
    then have "map id' ls ! j \<noteq> map id' ls ! i"
      using assms(1,2) by (simp add: nth_eq_iff_index_eq del: nth_map)
    then show ?thesis using nth_id \<open>j < length ls\<close> assms(2) by simp
  qed
qed

lemma merged_items_distinct:
  assumes "distinct (map id' ls)" "distinct (map id' rs)"
  shows "merged_items ls rs =
           map (resolve rs) ls @ filter (\<lambda>r. id' r \<notin> id' ` set ls) rs"
  using assms(2)
proof (induction rs rule: rev_induct)
  case Nil
  have "map (resolve []) ls = ls"
    by (simp add: resolve_def map_idI)
  then show ?case by (simp add: merged_items_def)
next
  case (snoc r rs)
  let ?F = "\<lambda>xs. filter (\<lambda>r. id' r \<notin> id' ` set ls) xs"
  from snoc.prems have drs: "distinct (map id' rs)" and fresh: "id' r \<notin> id' ` set rs"
    by auto
  have prev: "merged_items ls rs = map (resolve rs) ls @ ?F rs"
    using snoc.IH drs by simp
  have step: "merged_items ls (rs @ [r]) = items_step (Map_of ls) r (merged_items ls rs)"
    by (simp add: merged_items_def)
  show ?case
  proof (cases "Map_of ls (id' r)")
    case None
    then have notin: "id' r \<notin> id' ` set ls" by (simp add: Map_of_None)
    then have "map (resolve (rs @ [r])) ls = map (resolve rs) ls"
      by (auto simp: resolve_snoc [OF fresh] image_iff)
    with None notin show ?thesis
      by (simp add: step prev items_step_def)
  next
    case (Some l0)
    from Map_of_Some [OF Some] have l0: "l0 \<in> set ls" "id' l0 = id' r" by auto
    then obtain i where i: "i < length ls" "ls ! i = l0"
      by (auto simp: in_set_conv_nth)
    have isin: "id' r \<in> id' ` set ls" using l0 by (metis imageI)
    then have F: "?F (rs @ [r]) = ?F rs" by simp
    show ?thesis
    proof (cases "getTimestamp r > getTimestamp l0")
      case False
      have "resolve (rs @ [r]) l = resolve rs l" if "l \<in> set ls" for l
      proof (cases "id' l = id' r")
        case True
        then have "Map_of ls (id' r) = Some l"
          using Map_of_distinct [OF assms(1) that] by simp
        with Some have "l = l0" by simp
        with False show ?thesis by (simp add: resolve_snoc [OF fresh])
      next
        case False
        then show ?thesis by (simp add: resolve_snoc [OF fresh])
      qed
      then have "map (resolve (rs @ [r])) ls = map (resolve rs) ls" by simp
      with False Some F show ?thesis
        by (simp add: step prev items_step_def)
    next
      case True
      have ids: "map id' (map (resolve rs) ls @ ?F rs) = map id' ls @ map id' (?F rs)"
        by (simp add: resolve_id comp_def)
      have fi: "findIndex (\<lambda>t. id' t = id' r) (map (resolve rs) ls @ ?F rs) = Some i"
        using findIndex_by_id [OF assms(1) i(1) ids] i(2) l0(2) by simp
      have upd: "(map (resolve rs) ls)[i := r] = map (resolve (rs @ [r])) ls"
      proof (rule nth_equalityI)
        show "length ((map (resolve rs) ls)[i := r]) = length (map (resolve (rs @ [r])) ls)"
          by simp
        fix j assume "j < length ((map (resolve rs) ls)[i := r])"
        then have j: "j < length ls" by simp
        show "(map (resolve rs) ls)[i := r] ! j = map (resolve (rs @ [r])) ls ! j"
        proof (cases "j = i")
          case True
          with i l0 \<open>getTimestamp r > getTimestamp l0\<close> show ?thesis
            by (simp add: resolve_snoc [OF fresh])
        next
          case False
          with j i(1) have "map id' ls ! j \<noteq> map id' ls ! i"
            using assms(1) by (simp add: nth_eq_iff_index_eq del: nth_map)
          with j i l0 have "id' (ls ! j) \<noteq> id' r" by simp
          with False j show ?thesis by (simp add: resolve_snoc [OF fresh])
        qed
      qed
      have "items_step (Map_of ls) r (map (resolve rs) ls @ ?F rs)
              = (map (resolve rs) ls @ ?F rs)[i := r]"
        using Some True fi by (simp add: items_step_def)
      also have "\<dots> = (map (resolve rs) ls)[i := r] @ ?F rs"
        using i(1) by (simp add: list_update_append)
      finally show ?thesis using upd F by (simp add: step prev)
    qed
  qed
qed

lemma fold_items_step_same:
  assumes "distinct (map id' xs)" "set rs \<subseteq> set xs"
  shows "fold (items_step (Map_of xs)) rs xs = xs"
  using assms(2)
proof (induction rs)
  case Nil
  then show ?case by simp
next
  case (Cons r rs)
  then have "r \<in> set xs" by simp
  then have "Map_of xs (id' r) = Some r" by (rule Map_of_distinct [OF assms(1)])
  then have "items_step (Map_of xs) r xs = xs" by (simp add: items_step_def)
  with Cons show ?case by simp
qed

lemma merged_items_same: "distinct (map id' xs) \<Longrightarrow> merged_items xs xs = xs"
  by (simp add: merged_items_def fold_items_step_same)


lemma fst_append_step:
  "fst (append_step M r acc) = fst acc @ (if M (id' r) = None then [r] else [])"
  by (cases acc) (simp add: append_step_def split: option.split)

lemma fst_fold_append_step:
  "fst (fold (append_step M) rs acc) = fst acc @ filter (\<lambda>r. M (id' r) = None) rs"
  by (induction rs arbitrary: acc) (simp_all add: fst_append_step)

lemma fst_append_collection:
  "fst (append_collection ls rs lg) = ls @ filter (\<lambda>r. id' r \<notin> id' ` set ls) rs"
  by (simp add: append_collection_def fst_fold_append_step Map_of_None)

lemma mergeTransactions_fields:
  "userProfile (fst (mergeTransactions L R st)) = userProfile (fst st)"
  "transactions (fst (mergeTransactions L R st)) =
     (case transactions R of None \<Rightarrow> transactions (fst st)
      | Some rs \<Rightarrow> Some (merged_items (or_empty (transactions L)) rs))"
  "budgets (fst (mergeTransactions L R st)) = budgets (fst st)"
  "goals (fst (mergeTransactions L R st)) = goals (fst st)"
  "debtAccounts (fst (mergeTransactions L R st)) = debtAccounts (fst st)"
  "creditAccounts (fst (mergeTransactions L R st)) = creditAccounts (fst st)"
  "debtCreditTransactions (fst (mergeTransactions L R st)) = debtCreditTransactions (fst st)"
  "categories (fst (mergeTransactions L R st)) = categories (fst st)"
  "emergencyFund (fst (mergeTransactions L R st)) = emergencyFund (fst st)"
  "exportedAt (fst (mergeTransactions L R st)) = exportedAt (fst st)"
  by (simp_all add: mergeTransactions_def case_prod_beta fst_merge_collection fst_append_collection Let_def
        split: option.split)

lemma mergeBudgets_fields:
  "userProfile (fst (mergeBudgets L R st)) = userProfile (fst st)"
  "transactions (fst (mergeBudgets L R st)) = transactions (fst st)"
  "budgets (fst (mergeBudgets L R st)) =
     (case budgets R of None \<Rightarrow> budgets (fst st)
      | Some rs \<Rightarrow> Some (merged_items (or_empty (budgets L)) rs))"
  "goals (fst (mergeBudgets L R st)) = goals (fst st)"
  "debtAccounts (fst (mergeBudgets L R st)) = debtAccounts (fst st)"
  "creditAccounts (fst (mergeBudgets L R st)) = creditAccounts (fst st)"
  "debtCreditTransactions (fst (mergeBudgets L R st)) = debtCreditTransactions (fst st)"
  "categories (fst (mergeBudgets L R st)) = categories (fst st)"
  "emergencyFund (fst (mergeBudgets L R st)) = emergencyFund (fst st)"
  "exportedAt (fst (mergeBudgets L R st)) = exportedAt (fst st)"
  by (simp_all add: mergeBudgets_def case_prod_beta fst_merge_collection fst_append_collection Let_def
        split: option.split)

lemma mergeGoals_fields:
  "userProfile (fst (mergeGoals L R st)) = userProfile (fst st)"
  "transactions (fst (mergeGoals L R st)) = transactions (fst st)"
  "budgets (fst (mergeGoals L R st)) = budgets (fst st)"
  "goals (fst (mergeGoals L R st)) =
     (case goals R of None \<Rightarrow> goals (fst st)
      | Some rs \<Rightarrow> Some (merged_items (or_empty (goals L)) rs))"
  "debtAccounts (fst (mergeGoals L R st)) = debtAccounts (fst st)"
  "creditAccounts (fst (mergeGoals L R st)) = creditAccounts (fst st)"
  "debtCreditTransactions (fst (mergeGoals L R st)) = debtCreditTransactions (fst st)"
  "categories (fst (mergeGoals L R st)) = categories (fst st)"
  "emergencyFund (fst (mergeGoals L R st)) = emergencyFund (fst st)"
  "exportedAt (fst (mergeGoals L R st)) = exportedAt (fst st)"
  by (simp_all add: mergeGoals_def case_prod_beta fst_merge_collection fst_append_collection Let_def
        split: option.split)

lemma mergeCategories_fields:
  "userProfile (fst (mergeCategories L R st)) = userProfile (fst st)"
  "transactions (fst (mergeCategories L R st)) = transactions (fst st)"
  "budgets (fst (mergeCategories L R st)) = budgets (fst st)"
  "goals (fst (mergeCategories L R st)) = goals (fst st)"
  "debtAccounts (fst (mergeCategories L R st)) = debtAccounts (fst st)"
  "creditAccounts (fst (mergeCategories L R st)) = creditAccounts (fst st)"
  "debtCreditTransactions (fst (mergeCategories L R st)) = debtCreditTransactions (fst st)"
  "categories (fst (mergeCategories L R st)) =
     (case categories R of None \<Rightarrow> categories (fst st)
      | Some rs \<Rightarrow> Some (filter (\<lambda>c. isDefault c) (or_empty (categories L)) @ merged_items (filter (\<lambda>c. \<not> isDefault c) (or_empty (categories L))) (filter (\<lambda>c. \<not> isDefault c) rs)))"
  "emergencyFund (fst (mergeCategories L R st)) = emergencyFund (fst st)"
  "exportedAt (fst (mergeCategories L R st)) = exportedAt (fst st)"
  by (simp_all add: mergeCategories_def case_prod_beta fst_merge_collection fst_append_collection Let_def
        split: option.split)

lemma mergeDebtAccounts_fields:
  "userProfile (fst (mergeDebtAccounts L R st)) = userProfile (fst st)"
  "transactions (fst (mergeDebtAccounts L R st)) = transactions (fst st)"
  "budgets (fst (mergeDebtAccounts L R st)) = budgets (fst st)"
  "goals (fst (mergeDebtAccounts L R st)) = goals (fst st)"
  "debtAccounts (fst (mergeDebtAccounts L R st)) =
     (case debtAccounts R of None \<Rightarrow> debtAccounts (fst st)
      | Some rs \<Rightarrow> Some (merged_items (or_empty (debtAccounts L)) rs))"
  "creditAccounts (fst (mergeDebtAccounts L R st)) = creditAccounts (fst st)"
  "debtCreditTransactions (fst (mergeDebtAccounts L R st)) = debtCreditTransactions (fst st)"
  "categories (fst (mergeDebtAccounts L R st)) = categories (fst st)"
  "emergencyFund (fst (mergeDebtAccounts L R st)) = emergencyFund (fst st)"
  "exportedAt (fst (mergeDebtAccounts L R st)) = exportedAt (fst st)"
  by (simp_all add: mergeDebtAccounts_def case_prod_beta fst_merge_collection fst_append_collection Let_def
        split: option.split)

lemma mergeCreditAccounts_fields:
  "userProfile (fst (mergeCreditAccounts L R st)) = userProfile (fst st)"
  "transactions (fst (mergeCreditAccounts L R st)) = transactions (fst st)"
  "budgets (fst (mergeCreditAccounts L R st)) = budgets (fst st)"
  "goals (fst (mergeCreditAccounts L R st)) = goals (fst st)"
  "debtAccounts (fst (mergeCreditAccounts L R st)) = debtAccounts (fst st)"
  "creditAccounts (fst (mergeCreditAccounts L R st)) =
     (case creditAccounts R of None \<Rightarrow> creditAccounts (fst st)
      | Some rs \<Rightarrow> Some (merged_items (or_empty (creditAccounts L)) rs))"
  "debtCreditTransactions (fst (mergeCreditAccounts L R st)) = debtCreditTransactions (fst st)"
  "categories (fst (mergeCreditAccounts L R st)) = categories (fst st)"
  "emergencyFund (fst (mergeCreditAccounts L R st)) = emergencyFund (fst st)"
  "exportedAt (fst (mergeCreditAccounts L R st)) = exportedAt (fst st)"
  by (simp_all add: mergeCreditAccounts_def case_prod_beta fst_merge_collection fst_append_collection Let_def
        split: option.split)

lemma mergeDebtCreditTransactions_fields:
  "userProfile (fst (mergeDebtCreditTransactions L R st)) = userProfile (fst st)"
  "transactions (fst (mergeDebtCreditTransactions L R st)) = transactions (fst st)"
  "budgets (fst (mergeDebtCreditTransactions L R st)) = budgets (fst st)"
  "goals (fst (mergeDebtCreditTransactions L R st)) = goals (fst st)"
  "debtAccounts (fst (mergeDebtCreditTransactions L R st)) = debtAccounts (fst st)"
  "creditAccounts (fst (mergeDebtCreditTransactions L R st)) = creditAccounts (fst st)"
  "debtCreditTransactions (fst (mergeDebtCreditTransactions L R st)) =
     (case debtCreditTransactions R of None \<Rightarrow> debtCreditTransactions (fst st)
      | Some rs \<Rightarrow> Some (or_empty (debtCreditTransactions L) @ filter (\<lambda>r. id' r \<notin> id' ` set (or_empty (debtCreditTransactions L))) rs))"
  "categories (fst (mergeDebtCreditTransactions L R st)) = categories (fst st)"
  "emergencyFund (fst (mergeDebtCreditTransactions L R st)) = emergencyFund (fst st)"
  "exportedAt (fst (mergeDebtCreditTransactions L R st)) = exportedAt (fst st)"
  by (simp_all add: mergeDebtCreditTransactions_def case_prod_beta fst_merge_collection fst_append_collection Let_def
        split: option.split)

lemma mergeEmergencyFund_fields:
  "userProfile (fst (mergeEmergencyFund L R st)) = userProfile (fst st)"
  "transactions (fst (mergeEmergencyFund L R st)) = transactions (fst st)"
  "budgets (fst (mergeEmergencyFund L R st)) = budgets (fst st)"
  "goals (fst (mergeEmergencyFund L R st)) = goals (fst st)"
  "debtAccounts (fst (mergeEmergencyFund L R st)) = debtAccounts (fst st)"
  "creditAccounts (fst (mergeEmergencyFund L R st)) = creditAccounts (fst st)"
  "debtCreditTransactions (fst (mergeEmergencyFund L R st)) = debtCreditTransactions (fst st)"
  "categories (fst (mergeEmergencyFund L R st)) = categories (fst st)"
  "emergencyFund (fst (mergeEmergencyFund L R st)) =
     (case emergencyFund R of None \<Rightarrow> emergencyFund (fst st)
      | Some r \<Rightarrow> if r > or_num (emergencyFund L) 0 then Some r else emergencyFund (fst st))"
  "exportedAt (fst (mergeEmergencyFund L R st)) = exportedAt (fst st)"
  by (simp_all add: mergeEmergencyFund_def case_prod_beta Let_def split: option.split)

lemma mergeUserProfile_fields:
  "userProfile (fst (mergeUserProfile L R st)) =
     (case userProfile R of None \<Rightarrow> userProfile (fst st)
      | Some rp \<Rightarrow> Some
          \<lparr>profile_lastModified =
             Some (max (case userProfile L of None \<Rightarrow> 0
                        | Some p \<Rightarrow> or_num (profile_lastModified p) 0)
                       (or_num (profile_lastModified rp) 0)),
           profile_fields =
             (case userProfile L of None \<Rightarrow> Map.empty | Some p \<Rightarrow> profile_fields p)
               ++ profile_fields rp\<rparr>)"
  "transactions (fst (mergeUserProfile L R st)) = transactions (fst st)"
  "budgets (fst (mergeUserProfile L R st)) = budgets (fst st)"
  "goals (fst (mergeUserProfile L R st)) = goals (fst st)"
  "debtAccounts (fst (mergeUserProfile L R st)) = debtAccounts (fst st)"
  "creditAccounts (fst (mergeUserProfile L R st)) = creditAccounts (fst st)"
  "debtCreditTransactions (fst (mergeUserProfile L R st)) = debtCreditTransactions (fst st)"
  "categories (fst (mergeUserProfile L R st)) = categories (fst st)"
  "emergencyFund (fst (mergeUserProfile L R st)) = emergencyFund (fst st)"
  "exportedAt (fst (mergeUserProfile L R st)) = exportedAt (fst st)"
  by (simp_all add: mergeUserProfile_def case_prod_beta Let_def split: option.split)

lemmas section_fields =
  mergeTransactions_fields
  mergeBudgets_fields
  mergeGoals_fields
  mergeCategories_fields
  mergeDebtAccounts_fields
  mergeCreditAccounts_fields
  mergeDebtCreditTransactions_fields
  mergeEmergencyFund_fields
  mergeUserProfile_fields

lemma merged_fields:
  "userProfile (merged (mergeWalletData L R)) =
     (case userProfile R of None \<Rightarrow> userProfile L
      | Some rp \<Rightarrow> Some
          \<lparr>profile_lastModified =
             Some (max (case userProfile L of None \<Rightarrow> 0
                        | Some p \<Rightarrow> or_num (profile_lastModified p) 0)
                       (or_num (profile_lastModified rp) 0)),
           profile_fields =
             (case userProfile L of None \<Rightarrow> Map.empty | Some p \<Rightarrow> profile_fields p)
               ++ profile_fields rp\<rparr>)"
  "transactions (merged (mergeWalletData L R)) =
     (case transactions R of None \<Rightarrow> transactions L
      | Some rs \<Rightarrow> Some (merged_items (or_empty (transactions L)) rs))"
  "budgets (merged (mergeWalletData L R)) =
     (case budgets R of None \<Rightarrow> budgets L
      | Some rs \<Rightarrow> Some (merged_items (or_empty (budgets L)) rs))"
  "goals (merged (mergeWalletData L R)) =
     (case goals R of None \<Rightarrow> goals L
      | Some rs \<Rightarrow> Some (merged_items (or_empty (goals L)) rs))"
  "debtAccounts (merged (mergeWalletData L R)) =
     (case debtAccounts R of None \<Rightarrow> debtAccounts L
      | Some rs \<Rightarrow> Some (merged_items (or_empty (debtAccounts L)) rs))"
  "creditAccounts (merged (mergeWalletData L R)) =
     (case creditAccounts R of None \<Rightarrow> creditAccounts L
      | Some rs \<Rightarrow> Some (merged_items (or_empty (creditAccounts L)) rs))"
  "debtCreditTransactions (merged (mergeWalletData L R)) =
     (case debtCreditTransactions R of None \<Rightarrow> debtCreditTransactions L
      | Some rs \<Rightarrow> Some (or_empty (debtCreditTransactions L) @ filter (\<lambda>r. id' r \<notin> id' ` set (or_empty (debtCreditTransactions L))) rs))"
  "categories (merged (mergeWalletData L R)) =
     (case categories R of None \<Rightarrow> categories L
      | Some rs \<Rightarrow> Some (filter (\<lambda>c. isDefault c) (or_empty (categories L)) @ merged_items (filter (\<lambda>c. \<not> isDefault c) (or_empty (categories L))) (filter (\<lambda>c. \<not> isDefault c) rs)))"
  "emergencyFund (merged (mergeWalletData L R)) =
     (case emergencyFund R of None \<Rightarrow> emergencyFund L
      | Some r \<Rightarrow> if r > or_num (emergencyFund L) 0 then Some r else emergencyFund L)"
  "exportedAt (merged (mergeWalletData L R)) = exportedAt L"
  by (simp_all add: mergeWalletData_def case_prod_beta section_fields cong: option.case_cong if_cong)



subsection \<open>The merge log\<close>

lemma snd_merge_step_filter:
  assumes "\<And>r. \<not> P (a r)" "\<And>r. \<not> P (u r)"
  shows "filter P (snd (merge_step M a u r acc)) = filter P (snd acc)"
  using assms by (cases acc) (simp add: merge_step_def split: option.split)

lemma snd_merge_collection_filter:
  assumes "\<And>r. \<not> P (a r)" "\<And>r. \<not> P (u r)"
  shows "filter P (snd (merge_collection a u ls rs lg)) = filter P lg"
proof -
  have "filter P (snd (fold (merge_step M a u) rs acc)) = filter P (snd acc)" for M acc
    by (induction rs arbitrary: acc) (simp_all add: snd_merge_step_filter [OF assms])
  then show ?thesis by (simp add: merge_collection_def)
qed

lemma snd_append_collection_filter:
  "filter is_fund_entry (snd (append_collection ls rs lg)) = filter is_fund_entry lg"
proof -
  have step: "filter is_fund_entry (snd (append_step M r acc)) = filter is_fund_entry (snd acc)"
    for M r acc
    by (cases acc) (simp add: append_step_def split: option.split)
  have "filter is_fund_entry (snd (fold (append_step M) rs acc)) = filter is_fund_entry (snd acc)"
    for M acc
    by (induction rs arbitrary: acc) (simp_all add: step)
  then show ?thesis by (simp add: append_collection_def)
qed

lemma section_fund_log:
  "filter is_fund_entry (snd (mergeTransactions L R st)) = filter is_fund_entry (snd st)"
  "filter is_fund_entry (snd (mergeBudgets L R st)) = filter is_fund_entry (snd st)"
  "filter is_fund_entry (snd (mergeGoals L R st)) = filter is_fund_entry (snd st)"
  "filter is_fund_entry (snd (mergeCategories L R st)) = filter is_fund_entry (snd st)"
  "filter is_fund_entry (snd (mergeDebtAccounts L R st)) = filter is_fund_entry (snd st)"
  "filter is_fund_entry (snd (mergeCreditAccounts L R st)) = filter is_fund_entry (snd st)"
  "filter is_fund_entry (snd (mergeDebtCreditTransactions L R st)) = filter is_fund_entry (snd st)"
  "filter is_fund_entry (snd (mergeUserProfile L R st)) = filter is_fund_entry (snd st)"
  by (simp_all add: mergeTransactions_def mergeBudgets_def mergeGoals_def mergeCategories_def
        mergeDebtAccounts_def mergeCreditAccounts_def mergeDebtCreditTransactions_def
        mergeUserProfile_def case_prod_beta Let_def snd_merge_collection_filter
        snd_append_collection_filter split: option.split)

lemma fund_section_log:
  "filter is_fund_entry (snd (mergeEmergencyFund L R st)) =
     filter is_fund_entry (snd st) @
     (case emergencyFund R of
        None \<Rightarrow> []
      | Some r \<Rightarrow>
          if r > or_num (emergencyFund L) 0 then [UpdatedEmergencyFund r (or_num (emergencyFund L) 0)]
          else if r < or_num (emergencyFund L) 0
            then [KeptLocalEmergencyFund (or_num (emergencyFund L) 0) r]
          else [])"
  by (simp add: mergeEmergencyFund_def case_prod_beta Let_def split: option.split)

lemma merged_fund_log:
  "filter is_fund_entry (mergeLog (mergeWalletData L R)) =
     (case emergencyFund R of
        None \<Rightarrow> []
      | Some r \<Rightarrow>
          if r > or_num (emergencyFund L) 0 then [UpdatedEmergencyFund r (or_num (emergencyFund L) 0)]
          else if r < or_num (emergencyFund L) 0
            then [KeptLocalEmergencyFund (or_num (emergencyFund L) 0) r]
          else [])"
  by (simp add: mergeWalletData_def case_prod_beta section_fund_log fund_section_log)

subsection \<open>The merged collections\<close>

lemma set_items_step: "set (items_step M r m) \<subseteq> insert r (set m)"
  using set_update_subset_insert [of m _ r]
  by (auto simp: items_step_def split: option.split)

lemma set_fold_items_step: "set (fold (items_step M) rs m) \<subseteq> set m \<union> set rs"
proof (induction rs arbitrary: m)
  case Nil
  then show ?case by simp
next
  case (Cons r rs)
  have "set (fold (items_step M) rs (items_step M r m)) \<subseteq> set (items_step M r m) \<union> set rs"
    by (rule Cons.IH)
  with set_items_step [of M r m] show ?case by auto
qed

lemma set_merged_items: "set (merged_items ls rs) \<subseteq> set ls \<union> set rs"
  by (simp add: merged_items_def set_fold_items_step)

lemma merged_items_Nil [simp]: "merged_items ls [] = ls"
  by (simp add: merged_items_def)

lemma idset_merged_items: "id' ` set (merged_items ls rs) = id' ` set ls \<union> id' ` set rs"
proof -
  have "id' ` set (merged_items ls rs) = set (map id' (merged_items ls rs))" by simp
  also have "\<dots> = id' ` set ls \<union> id' ` {r \<in> set rs. id' r \<notin> id' ` set ls}"
    by (simp only: ids_merged_items set_append set_map set_filter)
  also have "\<dots> = id' ` set ls \<union> id' ` set rs" by blast
  finally show ?thesis .
qed

lemma user_merged_items:
  "filter (\<lambda>c. \<not> isDefault c)
     (merged_items (filter (\<lambda>c. \<not> isDefault c) ls) (filter (\<lambda>c. \<not> isDefault c) rs))
   = merged_items (filter (\<lambda>c. \<not> isDefault c) ls) (filter (\<lambda>c. \<not> isDefault c) rs)"
  using set_merged_items [of "filter (\<lambda>c. \<not> isDefault c) ls" "filter (\<lambda>c. \<not> isDefault c) rs"]
  by (intro filter_True) auto

lemma tracked_merged:
  assumes "c \<noteq> DebtCreditTransactions"
  shows "tracked c (merged (mergeWalletData L R)) = merged_items (tracked c L) (tracked c R)"
  using assms
  by (cases c)
     (simp_all add: tracked_def merged_fields user_merged_items split: option.split)

lemma find_by_id:
  "distinct (map id' rs) \<Longrightarrow> r \<in> set rs \<Longrightarrow> find (\<lambda>x. id' x = id' r) rs = Some r"
  by (induction rs) (auto simp: image_iff)

lemma resolve_pair:
  assumes "distinct (map id' rs)" "r \<in> set rs" "id' r = id' l"
  shows "resolve rs l = (if getTimestamp r > getTimestamp l then r else l)"
  using find_by_id [OF assms(1,2)] assms(3) by (simp add: resolve_def)


section \<open>The claims about the merge engine\<close>


lemma stamped_same: "profile_lastModified p \<noteq> None \<Longrightarrow> stamped p = p"
  by (cases "profile_lastModified p") (auto simp: stamped_def)

lemma self_merged_normal: "normal_form s \<Longrightarrow> self_merged s = s"
  by (auto simp: normal_form_def self_merged_def stamped_same split: option.splits)

lemma unique_ids_tracked:
  "unique_ids s \<Longrightarrow> c \<noteq> DebtCreditTransactions \<Longrightarrow> distinct (map id' (tracked c s))"
  by (cases c) (simp_all add: unique_ids_def)

lemma append_self:
  "xs @ filter (\<lambda>r. id' r \<notin> id' ` set xs) xs = xs"
  by (simp add: filter_False)

text \<open>
  C1 (append-safety). Every id that occurs in a collection of the local snapshot occurs in
  the same collection of the merged snapshot, and so does every id of the remote
  collection; for the categories, every id of a remote user-created category (a remote
  default category may be dropped).
\<close>

theorem merge_keeps_every_id:
  "ids_in c L \<subseteq> ids_in c (merged (mergeWalletData L R)) \<and>
   tracked_ids c R \<subseteq> ids_in c (merged (mergeWalletData L R))"
proof (cases c)
  case Categories
  have split_ids: "id' ` set xs = id' ` {x \<in> set xs. isDefault x} \<union> id' ` {x \<in> set xs. \<not> isDefault x}"
    for xs :: "entity list"
    by blast
  show ?thesis
    using split_ids [of "or_empty (categories L)"]
    by (auto simp: Categories ids_in_def tracked_ids_def tracked_def merged_fields
          idset_merged_items image_Un split: option.split)
next
  case DebtCreditTransactions
  then show ?thesis
    by (auto simp: ids_in_def tracked_ids_def tracked_def merged_fields image_Un
          split: option.split)
qed (auto simp: ids_in_def tracked_ids_def tracked_def merged_fields idset_merged_items
       split: option.split)

theorem merge_keeps_every_id_witness:
  "ids_in Transactions (empty_snapshot\<lparr>transactions := Some [item ''a'' 1]\<rparr>)
     \<subseteq> ids_in Transactions (merged (mergeWalletData
           (empty_snapshot\<lparr>transactions := Some [item ''a'' 1]\<rparr>)
           (empty_snapshot\<lparr>transactions := Some [item ''a'' 2, item ''b'' 3]\<rparr>))) \<and>
   tracked_ids Transactions (empty_snapshot\<lparr>transactions := Some [item ''a'' 2, item ''b'' 3]\<rparr>)
     = {''a'', ''b''}"
  using merge_keeps_every_id [of Transactions
      "empty_snapshot\<lparr>transactions := Some [item ''a'' 1]\<rparr>"
      "empty_snapshot\<lparr>transactions := Some [item ''a'' 2, item ''b'' 3]\<rparr>"]
  by (simp add: tracked_ids_def tracked_def empty_snapshot_def item_def)


lemma map_add_self: "m ++ m = m"
  by (rule ext) (simp add: map_add_def split: option.split)

lemma profile_self:
  "\<lparr>profile_lastModified = Some (or_num (profile_lastModified p) 0),
    profile_fields = profile_fields p ++ profile_fields p\<rparr> = stamped p"
  by (cases p) (simp add: stamped_def map_add_self)

text \<open>
  C2 (idempotence), as the code has it. Merging a snapshot whose collections have
  pairwise distinct ids with itself returns the snapshot with two fields normalised:
  the categories with the default entries moved to the front, and the profile with a
  \<^verbatim>\<open>lastModified\<close> of 0 when it had none. So the result is the snapshot itself
  whenever no default category follows a user-created one and the profile, if present,
  has a \<^verbatim>\<open>lastModified\<close>.
\<close>

theorem merge_self:
  assumes "unique_ids S"
  shows "merged (mergeWalletData S S) = self_merged S \<and>
         (normal_form S \<longrightarrow> merged (mergeWalletData S S) = S)"
proof -
  have d: "distinct (map id' (tracked c S))" if "c \<noteq> DebtCreditTransactions" for c
    using assms that by (rule unique_ids_tracked)
  have same: "merged_items (tracked c S) (tracked c S) = tracked c S"
    if "c \<noteq> DebtCreditTransactions" for c
    using d [OF that] by (rule merged_items_same)
  have prof: "userProfile (merged (mergeWalletData S S)) = map_option stamped (userProfile S)"
    by (cases "userProfile S") (simp_all add: merged_fields profile_self)
  have cats: "categories (merged (mergeWalletData S S)) = map_option defaults_first (categories S)"
    using same [of Categories]
    by (cases "categories S") (simp_all add: merged_fields tracked_def defaults_first_def)
  have tx: "transactions (merged (mergeWalletData S S)) = transactions S"
    using same [of Transactions]
    by (cases "transactions S") (simp_all add: merged_fields tracked_def)
  have bu: "budgets (merged (mergeWalletData S S)) = budgets S"
    using same [of Budgets]
    by (cases "budgets S") (simp_all add: merged_fields tracked_def)
  have go: "goals (merged (mergeWalletData S S)) = goals S"
    using same [of Goals]
    by (cases "goals S") (simp_all add: merged_fields tracked_def)
  have da: "debtAccounts (merged (mergeWalletData S S)) = debtAccounts S"
    using same [of DebtAccounts]
    by (cases "debtAccounts S") (simp_all add: merged_fields tracked_def)
  have ca: "creditAccounts (merged (mergeWalletData S S)) = creditAccounts S"
    using same [of CreditAccounts]
    by (cases "creditAccounts S") (simp_all add: merged_fields tracked_def)
  have dc: "debtCreditTransactions (merged (mergeWalletData S S)) = debtCreditTransactions S"
    by (cases "debtCreditTransactions S") (simp_all add: merged_fields append_self)
  have ef: "emergencyFund (merged (mergeWalletData S S)) = emergencyFund S"
    by (cases "emergencyFund S") (simp_all add: merged_fields)
  have ex: "exportedAt (merged (mergeWalletData S S)) = exportedAt S"
    by (simp add: merged_fields)
  have eq: "merged (mergeWalletData S S) = self_merged S"
    by (rule snapshot.equality)
       (simp_all add: self_merged_def prof cats tx bu go da ca dc ef ex)
  then show ?thesis by (simp add: self_merged_normal)
qed


lemmas eval_merge =
  merged_fields merged_items_def items_step_def Map_of_def getTimestamp_def
  empty_snapshot_def item_def

theorem merge_self_witness:
  "unique_ids (empty_snapshot
      \<lparr>userProfile := Some \<lparr>profile_lastModified = Some 4, profile_fields = Map.empty\<rparr>,
       transactions := Some [item ''t1'' 5, item ''t2'' 3],
       categories := Some [default_category ''food'', item ''mine'' 2],
       emergencyFund := Some 500\<rparr>) \<and>
   normal_form (empty_snapshot
      \<lparr>userProfile := Some \<lparr>profile_lastModified = Some 4, profile_fields = Map.empty\<rparr>,
       transactions := Some [item ''t1'' 5, item ''t2'' 3],
       categories := Some [default_category ''food'', item ''mine'' 2],
       emergencyFund := Some 500\<rparr>) \<and>
   merged (mergeWalletData
     (empty_snapshot
      \<lparr>userProfile := Some \<lparr>profile_lastModified = Some 4, profile_fields = Map.empty\<rparr>,
       transactions := Some [item ''t1'' 5, item ''t2'' 3],
       categories := Some [default_category ''food'', item ''mine'' 2],
       emergencyFund := Some 500\<rparr>)
     (empty_snapshot
      \<lparr>userProfile := Some \<lparr>profile_lastModified = Some 4, profile_fields = Map.empty\<rparr>,
       transactions := Some [item ''t1'' 5, item ''t2'' 3],
       categories := Some [default_category ''food'', item ''mine'' 2],
       emergencyFund := Some 500\<rparr>))
   = empty_snapshot
      \<lparr>userProfile := Some \<lparr>profile_lastModified = Some 4, profile_fields = Map.empty\<rparr>,
       transactions := Some [item ''t1'' 5, item ''t2'' 3],
       categories := Some [default_category ''food'', item ''mine'' 2],
       emergencyFund := Some 500\<rparr>"
proof -
  let ?S = "empty_snapshot
      \<lparr>userProfile := Some \<lparr>profile_lastModified = Some 4, profile_fields = Map.empty\<rparr>,
       transactions := Some [item ''t1'' 5, item ''t2'' 3],
       categories := Some [default_category ''food'', item ''mine'' 2],
       emergencyFund := Some 500\<rparr>"
  have u: "unique_ids ?S"
    by (simp add: unique_ids_def tracked_def empty_snapshot_def item_def default_category_def)
  have n: "normal_form ?S"
    by (simp add: normal_form_def defaults_first_def empty_snapshot_def item_def
          default_category_def)
  from merge_self [OF u] n have "merged (mergeWalletData ?S ?S) = ?S" by blast
  with u n show ?thesis by blast
qed

text \<open>
  Where C2 fails as stated: a user-created category standing before a default one
  changes place with it; and a profile without \<^verbatim>\<open>lastModified\<close> comes back with
  \<^verbatim>\<open>lastModified: 0\<close>.
\<close>

theorem merge_self_counterexample:
  "merged (mergeWalletData
     (empty_snapshot\<lparr>categories := Some [item ''mine'' 2, default_category ''food'']\<rparr>)
     (empty_snapshot\<lparr>categories := Some [item ''mine'' 2, default_category ''food'']\<rparr>))
   \<noteq> empty_snapshot\<lparr>categories := Some [item ''mine'' 2, default_category ''food'']\<rparr> \<and>
   merged (mergeWalletData
     (empty_snapshot
        \<lparr>userProfile := Some \<lparr>profile_lastModified = None, profile_fields = Map.empty\<rparr>\<rparr>)
     (empty_snapshot
        \<lparr>userProfile := Some \<lparr>profile_lastModified = None, profile_fields = Map.empty\<rparr>\<rparr>))
   \<noteq> empty_snapshot
        \<lparr>userProfile := Some \<lparr>profile_lastModified = None, profile_fields = Map.empty\<rparr>\<rparr>"
proof
  let ?S = "empty_snapshot\<lparr>categories := Some [item ''mine'' 2, default_category ''food'']\<rparr>"
  show "merged (mergeWalletData ?S ?S) \<noteq> ?S"
  proof
    assume "merged (mergeWalletData ?S ?S) = ?S"
    then have "categories (merged (mergeWalletData ?S ?S)) = categories ?S" by simp
    then show False by (simp add: eval_merge default_category_def)
  qed
next
  let ?P = "empty_snapshot
        \<lparr>userProfile := Some \<lparr>profile_lastModified = None, profile_fields = Map.empty\<rparr>\<rparr>"
  show "merged (mergeWalletData ?P ?P) \<noteq> ?P"
  proof
    assume "merged (mergeWalletData ?P ?P) = ?P"
    then have "userProfile (merged (mergeWalletData ?P ?P)) = userProfile ?P" by simp
    then show False by (simp add: eval_merge)
  qed
qed

lemma getTimestamp_cases:
  "getTimestamp e =
     (if truthy (lastModified e) then the (lastModified e)
      else if truthy (timeEquivalent e) then the (timeEquivalent e)
      else if truthy (createdAt e) then the (createdAt e)
      else 0)"
  by (cases "lastModified e"; cases "timeEquivalent e"; cases "createdAt e")
     (simp_all add: getTimestamp_def)

text \<open>
  C3 (tie-break), as the code has it. In each of the six collections merged by
  timestamp, with pairwise distinct ids on either side, a local entry and a remote entry
  that share an id leave, at the local entry's position, the remote entry when its
  effective timestamp is strictly greater and the local entry otherwise (so also on
  equal timestamps). The effective timestamp is the first of \<^verbatim>\<open>lastModified\<close>,
  \<^verbatim>\<open>timeEquivalent\<close>, \<^verbatim>\<open>createdAt\<close> that is present and not 0, and 0 when there is none.
\<close>

theorem last_writer_wins:
  assumes "c \<noteq> DebtCreditTransactions"
    and "distinct (map id' (tracked c L))" and "distinct (map id' (tracked c R))"
    and "i < length (tracked c L)" and "r \<in> set (tracked c R)"
    and "id' r = id' (tracked c L ! i)"
  shows "tracked c (merged (mergeWalletData L R)) ! i =
           (if getTimestamp r > getTimestamp (tracked c L ! i) then r else tracked c L ! i) \<and>
         getTimestamp r =
           (if truthy (lastModified r) then the (lastModified r)
            else if truthy (timeEquivalent r) then the (timeEquivalent r)
            else if truthy (createdAt r) then the (createdAt r)
            else 0)"
proof -
  have "tracked c (merged (mergeWalletData L R)) ! i
          = (map (resolve (tracked c R)) (tracked c L)
               @ filter (\<lambda>r. id' r \<notin> id' ` set (tracked c L)) (tracked c R)) ! i"
    by (simp only: tracked_merged [OF assms(1)] merged_items_distinct [OF assms(2,3)])
  also have "\<dots> = resolve (tracked c R) (tracked c L ! i)"
    using assms(4) by (simp add: nth_append)
  also have "\<dots> = (if getTimestamp r > getTimestamp (tracked c L ! i) then r
                     else tracked c L ! i)"
    by (rule resolve_pair [OF assms(3,5,6)])
  finally show ?thesis by (simp add: getTimestamp_cases [of r])
qed

theorem last_writer_wins_witness:
  "tracked Transactions (merged (mergeWalletData
       (empty_snapshot\<lparr>transactions := Some [item ''1'' 5]\<rparr>)
       (empty_snapshot\<lparr>transactions := Some [item ''1'' 9, item ''2'' 1]\<rparr>))) ! 0
     = item ''1'' 9 \<and>
   getTimestamp (item ''1'' 9) = 9"
  using last_writer_wins [of Transactions
      "empty_snapshot\<lparr>transactions := Some [item ''1'' 5]\<rparr>"
      "empty_snapshot\<lparr>transactions := Some [item ''1'' 9, item ''2'' 1]\<rparr>"
      0 "item ''1'' 9"]
  by (simp add: tracked_def empty_snapshot_def item_def getTimestamp_def)

text \<open>
  Where C3 fails as stated: a \<^verbatim>\<open>lastModified\<close> that is present with the value 0 does
  not count. The local entry has \<^verbatim>\<open>lastModified: 0, timeEquivalent: 7\<close>, the remote
  entry \<^verbatim>\<open>lastModified: 5\<close>; by the timestamp of the claim the remote entry is newer
  (5 against 0), and the merge keeps the local entry (5 against 7).
\<close>

theorem last_writer_wins_counterexample:
  "present_timestamp (item ''1'' 5) > present_timestamp ((item ''1'' 0)\<lparr>timeEquivalent := Some 7\<rparr>) \<and>
   transactions (merged (mergeWalletData
       (empty_snapshot\<lparr>transactions := Some [(item ''1'' 0)\<lparr>timeEquivalent := Some 7\<rparr>]\<rparr>)
       (empty_snapshot\<lparr>transactions := Some [item ''1'' 5]\<rparr>)))
     = Some [(item ''1'' 0)\<lparr>timeEquivalent := Some 7\<rparr>]"
  by (simp add: eval_merge present_timestamp_def)

text \<open>
  C4 (emergency fund), as the code has it. When both sides carry a number, the merged
  fund is the greater of the two; the log holds one entry about the fund when the two
  differ, naming the remote value as the new one or the local value as the one kept,
  and no entry about the fund when they are equal.
\<close>

theorem emergency_fund_max:
  assumes "emergencyFund L = Some l" and "emergencyFund R = Some r"
  shows "emergencyFund (merged (mergeWalletData L R)) = Some (max l r) \<and>
         filter is_fund_entry (mergeLog (mergeWalletData L R)) =
           (if r > l then [UpdatedEmergencyFund r l]
            else if r < l then [KeptLocalEmergencyFund l r]
            else [])"
  using assms by (simp add: merged_fields merged_fund_log max_def)

theorem emergency_fund_max_witness:
  "emergencyFund (merged (mergeWalletData (empty_snapshot\<lparr>emergencyFund := Some 500\<rparr>)
       (empty_snapshot\<lparr>emergencyFund := Some 300\<rparr>))) = Some 500 \<and>
   filter is_fund_entry (mergeLog (mergeWalletData (empty_snapshot\<lparr>emergencyFund := Some 500\<rparr>)
       (empty_snapshot\<lparr>emergencyFund := Some 300\<rparr>))) = [KeptLocalEmergencyFund 500 300]"
  using emergency_fund_max [of "empty_snapshot\<lparr>emergencyFund := Some 500\<rparr>" 500
      "empty_snapshot\<lparr>emergencyFund := Some 300\<rparr>" 300]
  by (simp add: empty_snapshot_def)

text \<open>
  Where C4 fails as stated: with the same amount on both sides the merged fund is that
  amount and the log stays empty, so it does not say which side was kept.
\<close>

theorem emergency_fund_counterexample:
  "emergencyFund (merged (mergeWalletData (empty_snapshot\<lparr>emergencyFund := Some 500\<rparr>)
       (empty_snapshot\<lparr>emergencyFund := Some 500\<rparr>))) = Some 500 \<and>
   mergeLog (mergeWalletData (empty_snapshot\<lparr>emergencyFund := Some 500\<rparr>)
       (empty_snapshot\<lparr>emergencyFund := Some 500\<rparr>)) = []"
  by (simp add: merged_fields empty_snapshot_def mergeWalletData_def mergeTransactions_def
        mergeBudgets_def mergeGoals_def mergeCategories_def mergeDebtAccounts_def
        mergeCreditAccounts_def mergeDebtCreditTransactions_def mergeEmergencyFund_def
        mergeUserProfile_def)

text \<open>
  C5 (debt/credit transactions are append-only). When the remote snapshot carries the
  collection, the merged collection is the local one, entry for entry as it was, followed
  by the remote entries whose id does not occur locally, in their order; no timestamp is
  read.
\<close>

theorem debt_credit_append_only:
  assumes "debtCreditTransactions R = Some rs"
  shows "debtCreditTransactions (merged (mergeWalletData L R)) =
           Some (or_empty (debtCreditTransactions L) @
                 filter (\<lambda>r. id' r \<notin> id' ` set (or_empty (debtCreditTransactions L))) rs)"
  using assms by (simp add: merged_fields)

theorem debt_credit_append_only_witness:
  "debtCreditTransactions (merged (mergeWalletData
       (empty_snapshot\<lparr>debtCreditTransactions := Some [item ''1'' 5]\<rparr>)
       (empty_snapshot\<lparr>debtCreditTransactions := Some [item ''1'' 9, item ''2'' 1]\<rparr>)))
     = Some [item ''1'' 5, item ''2'' 1]"
  using debt_credit_append_only [of
      "empty_snapshot\<lparr>debtCreditTransactions := Some [item ''1'' 9, item ''2'' 1]\<rparr>"
      "[item ''1'' 9, item ''2'' 1]"
      "empty_snapshot\<lparr>debtCreditTransactions := Some [item ''1'' 5]\<rparr>"]
  by (simp add: empty_snapshot_def item_def)

text \<open>
  C9 (frame). A collection, the emergency fund or the profile that the remote snapshot
  does not carry is, in the merged snapshot, exactly what the local snapshot has.
\<close>

theorem absent_remote_field_keeps_local:
  "(userProfile R = None \<longrightarrow>
      userProfile (merged (mergeWalletData L R)) = userProfile L) \<and>
   (transactions R = None \<longrightarrow>
      transactions (merged (mergeWalletData L R)) = transactions L) \<and>
   (budgets R = None \<longrightarrow> budgets (merged (mergeWalletData L R)) = budgets L) \<and>
   (goals R = None \<longrightarrow> goals (merged (mergeWalletData L R)) = goals L) \<and>
   (categories R = None \<longrightarrow>
      categories (merged (mergeWalletData L R)) = categories L) \<and>
   (debtAccounts R = None \<longrightarrow>
      debtAccounts (merged (mergeWalletData L R)) = debtAccounts L) \<and>
   (creditAccounts R = None \<longrightarrow>
      creditAccounts (merged (mergeWalletData L R)) = creditAccounts L) \<and>
   (debtCreditTransactions R = None \<longrightarrow>
      debtCreditTransactions (merged (mergeWalletData L R)) = debtCreditTransactions L) \<and>
   (emergencyFund R = None \<longrightarrow>
      emergencyFund (merged (mergeWalletData L R)) = emergencyFund L)"
  by (simp add: merged_fields)

theorem absent_remote_field_keeps_local_witness:
  "merged (mergeWalletData
      (empty_snapshot
        \<lparr>transactions := Some [item ''1'' 5],
         categories := Some [item ''mine'' 2, default_category ''food''],
         emergencyFund := Some 500\<rparr>)
      empty_snapshot)
   = empty_snapshot
        \<lparr>transactions := Some [item ''1'' 5],
         categories := Some [item ''mine'' 2, default_category ''food''],
         emergencyFund := Some 500\<rparr>"
  using absent_remote_field_keeps_local [of empty_snapshot
      "empty_snapshot
        \<lparr>transactions := Some [item ''1'' 5],
         categories := Some [item ''mine'' 2, default_category ''food''],
         emergencyFund := Some 500\<rparr>"]
  by (intro snapshot.equality) (simp_all add: empty_snapshot_def merged_fields)


section \<open>Properties of the orchestrator\<close>

subsection \<open>Numbers written to and read from the local storage\<close>


lemma of_char_digit_char: "d < 10 \<Longrightarrow> of_char (digit_char d) = 48 + d"
  by (simp add: digit_char_def)

lemma digit_value_digit_char: "d < 10 \<Longrightarrow> digit_value 10 (digit_char d) = Some d"
  by (simp add: digit_value_def of_char_digit_char)

lemma digit_char_not:
  assumes "d < 10"
  shows "\<not> is_space (digit_char d)" "digit_char d \<noteq> CHR ''-''" "digit_char d \<noteq> CHR ''+''"
    "digit_char d \<noteq> CHR ''x''" "digit_char d \<noteq> CHR ''X''"
proof -
  have k: "of_char (digit_char d) = 48 + d" using assms by (rule of_char_digit_char)
  show "\<not> is_space (digit_char d)" using k by (simp add: is_space_def)
  have neq: "digit_char d \<noteq> c" if "(of_char c :: nat) < 48 \<or> (of_char c :: nat) > 57" for c
  proof
    assume "digit_char d = c"
    then have "(of_char c :: nat) = 48 + d" using k by simp
    with that assms show False by auto
  qed
  show "digit_char d \<noteq> CHR ''-''" by (rule neq) simp
  show "digit_char d \<noteq> CHR ''+''" by (rule neq) simp
  show "digit_char d \<noteq> CHR ''x''" by (rule neq) simp
  show "digit_char d \<noteq> CHR ''X''" by (rule neq) simp
qed

lemma show_nat_digits: "set (show_nat n) \<subseteq> digit_char ` {..<10}"
proof (induction n rule: show_nat.induct)
  case (1 n)
  show ?case
  proof (cases "n < 10")
    case True
    then show ?thesis by (subst show_nat.simps) simp
  next
    case False
    have "n mod 10 < 10" by simp
    with 1 False show ?thesis by (subst show_nat.simps) auto
  qed
qed

lemma show_nat_not_Nil: "show_nat n \<noteq> []"
  by (subst show_nat.simps) simp

lemma read_digits_show_nat:
  "read_digits 10 (show_nat n @ cs) acc = read_digits 10 cs (acc * 10 ^ length (show_nat n) + n)"
proof (induction n arbitrary: cs acc rule: show_nat.induct)
  case (1 n)
  show ?case
  proof (cases "n < 10")
    case True
    then show ?thesis
      by (subst (1 2) show_nat.simps) (simp add: digit_value_digit_char)
  next
    case False
    have m: "n mod 10 < 10" by simp
    have "read_digits 10 (show_nat n @ cs) acc
            = read_digits 10 (show_nat (n div 10) @ (digit_char (n mod 10) # cs)) acc"
      using False by (subst show_nat.simps) simp
    also have "\<dots> = read_digits 10 (digit_char (n mod 10) # cs)
                        (acc * 10 ^ length (show_nat (n div 10)) + n div 10)"
      using False by (rule "1.IH")
    also have "\<dots> = read_digits 10 cs
                        ((acc * 10 ^ length (show_nat (n div 10)) + n div 10) * 10 + n mod 10)"
      by (simp add: digit_value_digit_char [OF m])
    also have "(acc * 10 ^ length (show_nat (n div 10)) + n div 10) * 10 + n mod 10
                 = acc * 10 ^ length (show_nat n) + n"
    proof -
      have "length (show_nat n) = Suc (length (show_nat (n div 10)))"
        using False by (subst show_nat.simps) simp
      then show ?thesis by (simp add: algebra_simps)
    qed
    finally show ?thesis .
  qed
qed

lemma read_number_show_nat: "read_number 10 (show_nat n) = Some n"
proof -
  obtain c cs where s: "show_nat n = c # cs"
    using show_nat_not_Nil [of n] by (cases "show_nat n") auto
  then have "c \<in> digit_char ` {..<10}" using show_nat_digits [of n] by auto
  then have dv: "digit_value 10 c \<noteq> None" by (auto simp: digit_value_digit_char)
  have "read_digits 10 (show_nat n) 0 = n"
    using read_digits_show_nat [of n "[]" 0] by simp
  with s dv show ?thesis by (auto simp: read_number_def)
qed

lemma read_unsigned_show_nat: "read_unsigned (show_nat n) = Some n"
proof (cases "show_nat n")
  case Nil
  then show ?thesis using show_nat_not_Nil by simp
next
  case (Cons c cs)
  show ?thesis
  proof (cases cs)
    case Nil
    with Cons show ?thesis using read_number_show_nat [of n] by (simp add: read_unsigned_def)
  next
    case (Cons x rest)
    with \<open>show_nat n = c # cs\<close> have "x \<in> digit_char ` {..<10}"
      using show_nat_digits [of n] by auto
    then have "x \<noteq> CHR ''x''" "x \<noteq> CHR ''X''" by (auto simp: digit_char_not)
    with Cons \<open>show_nat n = c # cs\<close> show ?thesis
      using read_number_show_nat [of n] by (simp add: read_unsigned_def)
  qed
qed

lemma parseInt_toString: "parseInt (toString i) = Some i"
proof (cases "i < 0")
  case True
  have "\<not> is_space CHR ''-''" by (simp add: is_space_def)
  with True show ?thesis
    by (simp add: parseInt_def toString_def read_unsigned_show_nat)
next
  case False
  obtain c cs where s: "show_nat (nat i) = c # cs"
    using show_nat_not_Nil [of "nat i"] by (cases "show_nat (nat i)") auto
  then have "c \<in> digit_char ` {..<10}" using show_nat_digits [of "nat i"] by auto
  then have c: "\<not> is_space c" "c \<noteq> CHR ''-''" "c \<noteq> CHR ''+''"
    by (auto simp: digit_char_not)
  have "read_unsigned (c # cs) = Some (nat i)"
    using read_unsigned_show_nat [of "nat i"] s by simp
  with False c s show ?thesis
    by (simp add: parseInt_def toString_def)
qed

lemma toString_not_missing: "\<not> missing (Some (toString i))"
  using show_nat_not_Nil by (simp add: toString_def)



subsection \<open>The upload\<close>

lemma getDeviceInfo_frame:
  "syncState (snd (getDeviceInfo e w)) = syncState w"
  "calls (snd (getDeviceInfo e w)) = calls w"
  "k \<noteq> ''convex_device_id'' \<Longrightarrow> k \<noteq> ''convex_device_name'' \<Longrightarrow>
     localStorage (snd (getDeviceInfo e w)) k = localStorage w k"
  by (simp_all add: getDeviceInfo_def Let_def)

lemma encryptWalletData_world:
  "snd (encryptWalletData e d p w) = w\<lparr>calls := calls w @ [EncryptWalletData d p]\<rparr>"
  by (simp add: encryptWalletData_def Let_def split: option.split)

lemma decryptWalletData_world:
  "snd (decryptWalletData e c p w) = w\<lparr>calls := calls w @ [DecryptWalletData c p]\<rparr>"
  by (simp add: decryptWalletData_def Let_def split: option.split)

lemma upload_failed_simps:
  "fst (upload_failed m w) = failed m"
  "syncState (snd (upload_failed m w)) =
     (syncState w)\<lparr>isSyncing := False, error := Some (or_message m ''Sync failed'')\<rparr>"
  "localStorage (snd (upload_failed m w)) = localStorage w"
  "calls (snd (upload_failed m w)) = calls w"
  by (simp_all add: upload_failed_def)

text \<open>The upload that passed the guard, as a function of its own.\<close>

lemma syncToConvex_guard:
  "\<not> isAuthenticated e \<or> user e = None \<or> \<not> isEnabled (syncState w) \<Longrightarrow>
     syncToConvex e pw w = (failed ''Sync not enabled or user not authenticated'', w)"
  by (auto simp: syncToConvex_def split: option.split)

lemma syncToConvex_outcome:
  assumes "isAuthenticated e" "user e = Some u" "isEnabled (syncState w)"
  shows "(success (fst (syncToConvex e pw w)) \<and>
            syncState (snd (syncToConvex e pw w)) =
              (syncState w)\<lparr>isSyncing := False, error := None,
                             lastSyncTime := Some (dateNow e)\<rparr> \<and>
            localStorage (snd (syncToConvex e pw w)) ''convex_last_sync_time'' =
              Some (toString (dateNow e)))
         \<or> (\<not> success (fst (syncToConvex e pw w)) \<and>
            (\<exists>m. syncState (snd (syncToConvex e pw w)) =
                   (syncState w)\<lparr>isSyncing := False, error := Some (or_message m ''Sync failed'')\<rparr>) \<and>
            localStorage (snd (syncToConvex e pw w)) ''convex_last_sync_time'' =
              localStorage w ''convex_last_sync_time'')"
  using assms
  by (auto simp: syncToConvex_def Let_def case_prod_beta ok_def failed_def upload_failed_def
        encryptWalletData_world getDeviceInfo_frame
        split: option.split sum.split)


section \<open>The claims about the orchestrator\<close>


lemma scalar_values_ascii: "\<forall>u\<in>set s. u < 0x80 \<Longrightarrow> scalar_values s = s"
  by (induction s rule: scalar_values.induct)
     (auto simp: high_surrogate_def low_surrogate_def)

lemma encode_ascii:
  assumes "\<forall>u\<in>set s. u < 0x80"
  shows "encode s = map of_nat s"
proof -
  have "concat (map utf8 t) = map of_nat t" if "\<forall>u\<in>set t. u < 0x80" for t
    using that by (induction t) (simp_all add: utf8_def)
  with assms show ?thesis by (simp add: encode_def scalar_values_ascii)
qed

lemma ascii_small: "\<forall>u\<in>set (ascii ''_''). u < 0x80" "\<forall>u\<in>set (ascii ''_convex_sync_salt''). u < 0x80"
  by (simp_all add: ascii_def)

text \<open>
  C10 (the salt). \<^verbatim>\<open>generateConsistentSalt\<close> is a function of the two strings alone: its
  result is the first 32 bytes of the UTF-8 encoding of
  \<^verbatim>\<open><userId>_<userEmail>_convex_sync_salt\<close>, all of the encoding when that has fewer than
  32 bytes, so its length is the smaller of 32 and the length of the encoding. No hash is
  taken: when both strings are ASCII the bytes are the characters of the string
  themselves. The same key derivation applied to the same password and the salt of the
  same identity therefore gets the same arguments.
\<close>

theorem salt_is_utf8_prefix:
  "generateConsistentSalt userId userEmail =
     take 32 (encode (userId @ ascii ''_'' @ userEmail @ ascii ''_convex_sync_salt'')) \<and>
   length (generateConsistentSalt userId userEmail) =
     min 32 (length (encode (userId @ ascii ''_'' @ userEmail @ ascii ''_convex_sync_salt''))) \<and>
   ((\<forall>u\<in>set (userId @ userEmail). u < 0x80) \<longrightarrow>
      generateConsistentSalt userId userEmail =
        take 32 (map of_nat (userId @ ascii ''_'' @ userEmail @ ascii ''_convex_sync_salt''))) \<and>
   (userId' = userId \<and> userEmail' = userEmail \<longrightarrow>
      deriveKeyFromPin e password (generateConsistentSalt userId' userEmail') =
      deriveKeyFromPin e password (generateConsistentSalt userId userEmail))"
proof -
  have "encode (userId @ ascii ''_'' @ userEmail @ ascii ''_convex_sync_salt'')
          = map of_nat (userId @ ascii ''_'' @ userEmail @ ascii ''_convex_sync_salt'')"
    if "\<forall>u\<in>set (userId @ userEmail). u < 0x80"
    using that ascii_small by (intro encode_ascii) auto
  then show ?thesis
    by (auto simp: generateConsistentSalt_def Let_def)
qed

theorem salt_is_utf8_prefix_witness:
  "generateConsistentSalt (ascii ''u1'') (ascii ''a@b.c'') =
     [117, 49, 95, 97, 64, 98, 46, 99, 95, 99, 111, 110, 118, 101, 120, 95, 115,
      121, 110, 99, 95, 115, 97, 108, 116] \<and>
   length (generateConsistentSalt (ascii ''u1'') (ascii ''a@b.c'')) = 25"
proof -
  have small: "\<forall>u\<in>set (ascii ''u1'' @ ascii ''a@b.c''). u < 0x80"
    by (simp add: ascii_def)
  from salt_is_utf8_prefix [of "ascii ''u1''" "ascii ''a@b.c''"] small
  have "generateConsistentSalt (ascii ''u1'') (ascii ''a@b.c'') =
          take 32 (map of_nat (ascii ''u1'' @ ascii ''_'' @ ascii ''a@b.c'' @ ascii ''_convex_sync_salt''))"
    by blast
  then show ?thesis by (simp add: ascii_def)
qed

text \<open>
  C8 (disabling), as the code has it. \<^verbatim>\<open>disableSync\<close> returns success, puts every
  field of \<^verbatim>\<open>SyncState\<close> back to its initial value, and removes three keys of the local
  storage: the enabled flag, the stored passphrase and the time of the last sync. Every
  other key keeps its value.
\<close>

theorem disableSync_resets:
  "fst (disableSync w) = ok \<and>
   syncState (snd (disableSync w)) = initial_SyncState \<and>
   localStorage (snd (disableSync w)) ''convex_sync_enabled'' = None \<and>
   localStorage (snd (disableSync w)) ''convex_sync_password'' = None \<and>
   localStorage (snd (disableSync w)) ''convex_last_sync_time'' = None \<and>
   (k \<notin> {''convex_sync_enabled'', ''convex_sync_password'', ''convex_last_sync_time''} \<longrightarrow>
      localStorage (snd (disableSync w)) k = localStorage w k)"
  by (simp add: disableSync_def initial_SyncState_def)

theorem disableSync_resets_witness:
  "syncState (snd (disableSync
      \<lparr>syncState = \<lparr>isEnabled = True, isPaused = True, isSyncing = False,
                    lastSyncTime = Some 1000, error = Some ''Sync failed''\<rparr>,
       localStorage = [''convex_sync_enabled'' \<mapsto> ''true'', ''convex_last_sync_time'' \<mapsto> ''1000'',
                       ''convex_device_id'' \<mapsto> ''device_1''],
       calls = []\<rparr>)) = initial_SyncState \<and>
   localStorage (snd (disableSync
      \<lparr>syncState = \<lparr>isEnabled = True, isPaused = True, isSyncing = False,
                    lastSyncTime = Some 1000, error = Some ''Sync failed''\<rparr>,
       localStorage = [''convex_sync_enabled'' \<mapsto> ''true'', ''convex_last_sync_time'' \<mapsto> ''1000'',
                       ''convex_device_id'' \<mapsto> ''device_1''],
       calls = []\<rparr>)) ''convex_device_id'' = Some ''device_1''"
  using disableSync_resets [of
      "\<lparr>syncState = \<lparr>isEnabled = True, isPaused = True, isSyncing = False,
                    lastSyncTime = Some 1000, error = Some ''Sync failed''\<rparr>,
       localStorage = [''convex_sync_enabled'' \<mapsto> ''true'', ''convex_last_sync_time'' \<mapsto> ''1000'',
                       ''convex_device_id'' \<mapsto> ''device_1''],
       calls = []\<rparr>" "''convex_device_id''"]
  by simp

text \<open>
  Where C8 fails as stated: a stored salt and a stored pause flag are still there after
  \<^verbatim>\<open>disableSync\<close>.
\<close>

theorem disableSync_counterexample:
  "localStorage (snd (disableSync
      \<lparr>syncState = initial_SyncState\<lparr>isEnabled := True, isPaused := True\<rparr>,
       localStorage = [''convex_sync_enabled'' \<mapsto> ''true'', ''convex_sync_salt'' \<mapsto> ''c2FsdA=='',
                       ''convex_sync_paused'' \<mapsto> ''true''],
       calls = []\<rparr>)) ''convex_sync_salt'' = Some ''c2FsdA=='' \<and>
   localStorage (snd (disableSync
      \<lparr>syncState = initial_SyncState\<lparr>isEnabled := True, isPaused := True\<rparr>,
       localStorage = [''convex_sync_enabled'' \<mapsto> ''true'', ''convex_sync_salt'' \<mapsto> ''c2FsdA=='',
                       ''convex_sync_paused'' \<mapsto> ''true''],
       calls = []\<rparr>)) ''convex_sync_paused'' = Some ''true''"
  by (simp add: disableSync_def)



text \<open>
  C7 (failure of an upload). When the user is not authenticated, is not known, or sync
  is not enabled, \<^verbatim>\<open>syncToConvex\<close> returns a failure and leaves the state, the local
  storage and the list of calls as they were. When it got past this test and fails, the
  \<^verbatim>\<open>error\<close> of the state is set, \<^verbatim>\<open>lastSyncTime\<close> and the stored time of the last sync
  are what they were, and \<^verbatim>\<open>isEnabled\<close> is still true.
\<close>

theorem syncToConvex_failure:
  "((\<not> isAuthenticated e \<or> user e = None \<or> \<not> isEnabled (syncState w)) \<longrightarrow>
      \<not> success (fst (syncToConvex e pw w)) \<and> snd (syncToConvex e pw w) = w) \<and>
   (isAuthenticated e \<and> user e \<noteq> None \<and> isEnabled (syncState w) \<and>
    \<not> success (fst (syncToConvex e pw w)) \<longrightarrow>
      error (syncState (snd (syncToConvex e pw w))) \<noteq> None \<and>
      lastSyncTime (syncState (snd (syncToConvex e pw w))) = lastSyncTime (syncState w) \<and>
      localStorage (snd (syncToConvex e pw w)) ''convex_last_sync_time'' =
        localStorage w ''convex_last_sync_time'' \<and>
      isEnabled (syncState (snd (syncToConvex e pw w))))"
proof (intro conjI impI)
  assume g: "\<not> isAuthenticated e \<or> user e = None \<or> \<not> isEnabled (syncState w)"
  show "\<not> success (fst (syncToConvex e pw w))" "snd (syncToConvex e pw w) = w"
    by (simp_all add: syncToConvex_guard [OF g] failed_def)
next
  assume a: "isAuthenticated e \<and> user e \<noteq> None \<and> isEnabled (syncState w) \<and>
    \<not> success (fst (syncToConvex e pw w))"
  then obtain u where u: "user e = Some u" by auto
  from syncToConvex_outcome [OF _ u, of w pw] a
  obtain m where m: "syncState (snd (syncToConvex e pw w)) =
                   (syncState w)\<lparr>isSyncing := False, error := Some (or_message m ''Sync failed'')\<rparr>"
    and ls: "localStorage (snd (syncToConvex e pw w)) ''convex_last_sync_time'' =
              localStorage w ''convex_last_sync_time''"
    by auto
  show "error (syncState (snd (syncToConvex e pw w))) \<noteq> None" by (simp add: m)
  show "lastSyncTime (syncState (snd (syncToConvex e pw w))) = lastSyncTime (syncState w)"
    by (simp add: m)
  show "localStorage (snd (syncToConvex e pw w)) ''convex_last_sync_time'' =
        localStorage w ''convex_last_sync_time''" by (rule ls)
  show "isEnabled (syncState (snd (syncToConvex e pw w)))" using a by (simp add: m)
qed

theorem syncToConvex_failure_witness:
  "\<not> success (fst (syncToConvex
        (example_env\<lparr>storeWalletDataMutation := (\<lambda>a. Some ''Network error'')\<rparr>) None
        example_world)) \<and>
   error (syncState (snd (syncToConvex
        (example_env\<lparr>storeWalletDataMutation := (\<lambda>a. Some ''Network error'')\<rparr>) None
        example_world))) = Some ''Network error'' \<and>
   localStorage (snd (syncToConvex
        (example_env\<lparr>storeWalletDataMutation := (\<lambda>a. Some ''Network error'')\<rparr>) None
        example_world)) ''convex_last_sync_time'' = Some ''500'' \<and>
   isEnabled (syncState (snd (syncToConvex
        (example_env\<lparr>storeWalletDataMutation := (\<lambda>a. Some ''Network error'')\<rparr>) None
        example_world)))"
proof -
  let ?e = "example_env\<lparr>storeWalletDataMutation := (\<lambda>a. Some ''Network error'')\<rparr>"
  have run: "syncToConvex ?e None example_world =
     (failed ''Network error'',
      example_world
        \<lparr>syncState := initial_SyncState\<lparr>isEnabled := True, error := Some ''Network error''\<rparr>,
         calls := calls (snd (syncToConvex ?e None example_world))\<rparr>)"
    by (simp add: syncToConvex_def example_env_def example_world_def Let_def
          encryptWalletData_def getDeviceInfo_def upload_failed_def or_message_def
          initial_SyncState_def)
  have f: "\<not> success (fst (syncToConvex ?e None example_world))"
    by (subst run) (simp add: failed_def)
  have pre: "isAuthenticated ?e \<and> user ?e \<noteq> None \<and> isEnabled (syncState example_world)"
    by (simp add: example_env_def example_world_def initial_SyncState_def)
  from syncToConvex_failure [of ?e example_world None] pre f
  have "localStorage (snd (syncToConvex ?e None example_world)) ''convex_last_sync_time'' =
          localStorage example_world ''convex_last_sync_time''"
    and "isEnabled (syncState (snd (syncToConvex ?e None example_world)))"
    by blast+
  moreover have "error (syncState (snd (syncToConvex ?e None example_world))) = Some ''Network error''"
    by (subst run) simp
  ultimately show ?thesis using f by (simp add: example_world_def)
qed



subsection \<open>Local entries that the remote side does not replace\<close>

lemma length_merged_items: "length ls \<le> length (merged_items ls rs)"
  using arg_cong [OF ids_merged_items [of ls rs], of length] by simp

lemma merged_items_keeps_local:
  assumes "distinct (map id' ls)" "i < length ls"
    and "\<forall>r\<in>set rs. id' r = id' (ls ! i) \<longrightarrow> getTimestamp r \<le> getTimestamp (ls ! i)"
  shows "merged_items ls rs ! i = ls ! i"
  using assms(3)
proof (induction rs rule: rev_induct)
  case Nil
  then show ?case by simp
next
  case (snoc r rs)
  let ?m = "merged_items ls rs"
  have IH: "?m ! i = ls ! i" using snoc by simp
  have len: "i < length ?m" using assms(2) length_merged_items [of ls rs] by simp
  have step: "merged_items ls (rs @ [r]) = items_step (Map_of ls) r ?m"
    by (simp add: merged_items_def)
  show ?case
  proof (cases "Map_of ls (id' r)")
    case None
    then show ?thesis using IH len by (simp add: step items_step_def nth_append)
  next
    case (Some lv)
    show ?thesis
    proof (cases "getTimestamp r > getTimestamp lv")
      case False
      with Some IH show ?thesis by (simp add: step items_step_def)
    next
      case True
      show ?thesis
      proof (cases "findIndex (\<lambda>t. id' t = id' r) ?m")
        case None
        with Some True IH show ?thesis by (simp add: step items_step_def)
      next
        case (Some j)
        have "j \<noteq> i"
        proof
          assume "j = i"
          with findIndex_Some [OF Some] IH have same: "id' r = id' (ls ! i)" by simp
          have "ls ! i \<in> set ls" using assms(2) by simp
          then have "Map_of ls (id' (ls ! i)) = Some (ls ! i)"
            by (rule Map_of_distinct [OF assms(1)])
          with \<open>Map_of ls (id' r) = Some lv\<close> same have "lv = ls ! i" by simp
          moreover have "getTimestamp r \<le> getTimestamp (ls ! i)"
            using snoc.prems same by simp
          ultimately show False using True by simp
        qed
        with Some \<open>Map_of ls (id' r) = Some lv\<close> True IH show ?thesis
          by (simp add: step items_step_def)
      qed
    qed
  qed
qed

lemma tracked_keeps_local:
  assumes "i < length (tracked c L)"
    and "c \<noteq> DebtCreditTransactions \<longrightarrow>
           distinct (map id' (tracked c L)) \<and> remote_not_newer c L R i"
  shows "tracked c (merged (mergeWalletData L R)) ! i = tracked c L ! i"
proof (cases "c = DebtCreditTransactions")
  case True
  with assms(1) show ?thesis
    by (simp add: tracked_def merged_fields nth_append split: option.split)
next
  case False
  with assms(2) have d: "distinct (map id' (tracked c L))"
    and n: "\<forall>r\<in>set (tracked c R). id' r = id' (tracked c L ! i) \<longrightarrow>
              getTimestamp r \<le> getTimestamp (tracked c L ! i)"
    by (simp_all add: remote_not_newer_def list_all_iff)
  show ?thesis
    by (simp only: tracked_merged [OF False] merged_items_keeps_local [OF d assms(1) n])
qed

lemma tracked_local_snapshot: "tracked c (local_snapshot e) = tracked c (wallet e)"
  by (cases c) (simp_all add: tracked_def local_snapshot_def)

subsection \<open>The calls of an upload and of a download\<close>

lemma syncToConvex_calls:
  "\<exists>pre. calls (snd (syncToConvex e pw w)) = calls w @ pre \<and> list_all is_upload_call pre"
proof (cases "user e")
  case None
  then show ?thesis by (simp add: syncToConvex_def)
next
  case (Some u)
  show ?thesis
  proof (cases "\<not> isAuthenticated e \<or> \<not> isEnabled (syncState w)")
    case True
    with Some show ?thesis by (auto simp: syncToConvex_def)
  next
    case False
    with Some show ?thesis
      by (auto simp: syncToConvex_def Let_def case_prod_beta upload_failed_def
            encryptWalletData_world getDeviceInfo_frame split: option.split sum.split)
  qed
qed

lemma syncToConvex_isEnabled:
  "isEnabled (syncState (snd (syncToConvex e pw w))) = isEnabled (syncState w)"
proof (cases "user e")
  case None
  then show ?thesis by (simp add: syncToConvex_def)
next
  case (Some u)
  show ?thesis
  proof (cases "\<not> isAuthenticated e \<or> \<not> isEnabled (syncState w)")
    case True
    with Some show ?thesis by (auto simp: syncToConvex_def)
  next
    case False
    with Some show ?thesis
      by (auto simp: syncToConvex_def Let_def case_prod_beta upload_failed_def
            encryptWalletData_world getDeviceInfo_frame split: option.split sum.split)
  qed
qed

lemma download_calls:
  assumes "getLatestWalletData e = Some latest"
  shows "\<exists>post. calls (snd (download e p w)) = calls w @ post \<and> post \<noteq> [] \<and>
           list_all (\<lambda>c. \<not> is_upload_call c) post \<and>
           (\<forall>m. ImportData m \<in> set post \<longrightarrow>
              (\<exists>remoteData. fst (decryptWalletData e (encryptedData latest) p w) = Inr remoteData \<and>
                 m = merged (mergeWalletData (local_snapshot e) remoteData)))"
proof -
  let ?w1 = "w\<lparr>syncState := (syncState w)\<lparr>isSyncing := True, error := None\<rparr>\<rparr>"
  have fst_same: "fst (decryptWalletData e c p ?w1) = fst (decryptWalletData e c p w)" for c
    by (simp add: decryptWalletData_def Let_def split: option.split)
  show ?thesis
  proof (cases "fst (decryptWalletData e (encryptedData latest) p w)")
    case (Inl m)
    with assms fst_same show ?thesis
      by (simp add: download_def Let_def case_prod_beta decryptWalletData_world)
  next
    case (Inr remoteData)
    with assms fst_same show ?thesis
      by (cases "importData e (merged (mergeWalletData (local_snapshot e) remoteData))")
         (auto simp: download_def Let_def case_prod_beta decryptWalletData_world
            local_snapshot_def split: bool.split)
  qed
qed

lemma remote_is_newer_after_upload:
  "remote_is_newer latest (Some (toString t)) \<longleftrightarrow>
     record_lastModified latest \<noteq> 0 \<and> record_lastModified latest > t"
  using toString_not_missing [of t]
  by (simp add: remote_is_newer_def parseInt_toString)

lemma encryptWalletData_fst:
  "fst (encryptWalletData e d p w) = fst (encryptWalletData e d p w')"
  by (simp add: encryptWalletData_def Let_def split: option.split)

lemma syncToConvex_success:
  assumes "success (fst (syncToConvex e pw w))"
  shows "\<exists>u allCategories a m.
           user e = Some u \<and> isAuthenticated e \<and> isEnabled (syncState w) \<and>
           categories (wallet e) = Some allCategories \<and>
           calls (snd (syncToConvex e pw w)) =
             calls w @ [EncryptWalletData (uploaded_snapshot e allCategories) (syncPassword_of pw u),
                        StoreWalletData a, UpdateSyncMetadata m] \<and>
           fst (encryptWalletData e (uploaded_snapshot e allCategories) (syncPassword_of pw u) w) =
             Inr (store_encryptedData a, store_dataHash a) \<and>
           store_userId a = user_id u \<and> meta_userId m = user_id u \<and>
           storeWalletDataMutation e a = None \<and> updateSyncMetadataMutation e m = None \<and>
           localStorage (snd (syncToConvex e pw w)) ''convex_last_sync_time'' =
             Some (toString (dateNow e))"
proof -
  from assms obtain u where u: "user e = Some u"
    by (cases "user e") (auto simp: syncToConvex_def failed_def)
  from assms u have g: "isAuthenticated e" "isEnabled (syncState w)"
    by (auto simp: syncToConvex_def failed_def split: if_splits)
  let ?w1 = "w\<lparr>syncState := (syncState w)\<lparr>isSyncing := True, error := None\<rparr>\<rparr>"
  from assms u g obtain cs where cs: "categories (wallet e) = Some cs"
    by (cases "categories (wallet e)")
       (auto simp: syncToConvex_def Let_def upload_failed_def failed_def)
  let ?d = "uploaded_snapshot e cs"
  let ?p = "syncPassword_of pw u"
  have run: "syncToConvex e pw w =
     (case encryptWalletData e ?d ?p ?w1 of
        (Inl m, w2) \<Rightarrow> upload_failed m w2
      | (Inr (encrypted, hash), w2) \<Rightarrow>
          (case getDeviceInfo e w2 of
             ((deviceId, deviceName), w3) \<Rightarrow>
               (let args = \<lparr>store_userId = user_id u, store_deviceId = deviceId,
                            store_encryptedData = encrypted, store_dataHash = hash,
                            store_version = ''1.0''\<rparr>;
                    w4 = w3\<lparr>calls := calls w3 @ [StoreWalletData args]\<rparr>
                in case storeWalletDataMutation e args of
                     Some m \<Rightarrow> upload_failed m w4
                   | None \<Rightarrow>
                       (let margs = \<lparr>meta_userId = user_id u, meta_deviceId = deviceId,
                                     meta_deviceName = deviceName,
                                     meta_syncVersion = ''1.0''\<rparr>;
                            w5 = w4\<lparr>calls := calls w4 @ [UpdateSyncMetadata margs]\<rparr>
                        in case updateSyncMetadataMutation e margs of
                             Some m \<Rightarrow> upload_failed m w5
                           | None \<Rightarrow>
                               (ok,
                                w5\<lparr>localStorage :=
                                      (localStorage w5)
                                        (''convex_last_sync_time'' \<mapsto> toString (dateNow e)),
                                    syncState :=
                                      (syncState w5)\<lparr>isSyncing := False,
                                        lastSyncTime := Some (dateNow e)\<rparr>\<rparr>)))))"
    using u g cs by (simp add: syncToConvex_def Let_def uploaded_snapshot_def)
  obtain enc hash where enc: "fst (encryptWalletData e ?d ?p ?w1) = Inr (enc, hash)"
  proof (cases "fst (encryptWalletData e ?d ?p ?w1)")
    case (Inl m)
    with assms have False
      by (simp add: run case_prod_beta upload_failed_def failed_def)
    then show ?thesis ..
  next
    case (Inr r)
    with that show ?thesis by (cases r) auto
  qed
  let ?w2 = "?w1\<lparr>calls := calls w @ [EncryptWalletData ?d ?p]\<rparr>"
  have w2: "snd (encryptWalletData e ?d ?p ?w1) = ?w2"
    by (simp add: encryptWalletData_world)
  let ?dev = "fst (getDeviceInfo e ?w2)"
  let ?a = "\<lparr>store_userId = user_id u, store_deviceId = fst ?dev,
             store_encryptedData = enc, store_dataHash = hash, store_version = ''1.0''\<rparr>"
  let ?m = "\<lparr>meta_userId = user_id u, meta_deviceId = fst ?dev,
             meta_deviceName = snd ?dev, meta_syncVersion = ''1.0''\<rparr>"
  have st: "storeWalletDataMutation e ?a = None"
  proof (rule ccontr)
    assume "storeWalletDataMutation e ?a \<noteq> None"
    then obtain x where "storeWalletDataMutation e ?a = Some x" by auto
    with assms enc w2 show False
      by (simp add: run case_prod_beta Let_def upload_failed_def failed_def)
  qed
  have mt: "updateSyncMetadataMutation e ?m = None"
  proof (rule ccontr)
    assume "updateSyncMetadataMutation e ?m \<noteq> None"
    then obtain x where "updateSyncMetadataMutation e ?m = Some x" by auto
    with assms enc w2 st show False
      by (simp add: run case_prod_beta Let_def upload_failed_def failed_def)
  qed
  have c: "calls (snd (syncToConvex e pw w)) =
             calls w @ [EncryptWalletData ?d ?p, StoreWalletData ?a, UpdateSyncMetadata ?m]"
    using enc w2 st mt
    by (simp add: run case_prod_beta Let_def getDeviceInfo_frame)
  have l: "localStorage (snd (syncToConvex e pw w)) ''convex_last_sync_time'' =
             Some (toString (dateNow e))"
    using enc w2 st mt by (simp add: run case_prod_beta Let_def)
  have e': "fst (encryptWalletData e ?d ?p w) = Inr (store_encryptedData ?a, store_dataHash ?a)"
    using enc encryptWalletData_fst [of e ?d ?p w ?w1] by simp
  show ?thesis
    using u g cs c e' st mt l
    by (intro exI [of _ u] exI [of _ cs] exI [of _ ?a] exI [of _ ?m]) simp
qed

lemma tracked_uploaded_snapshot:
  assumes "categories (wallet e) = Some allCategories" "c \<noteq> DebtCreditTransactions"
  shows "tracked c (uploaded_snapshot e allCategories) = tracked c (wallet e)"
  using assms by (cases c) (simp_all add: tracked_def uploaded_snapshot_def)

text \<open>
  C6 (upload before download). In an automatic cycle the calls of the upload come first
  and none of them belongs to a download; what follows holds no call of an upload. When
  the upload succeeds, its calls are the encryption of the local wallet (every entry of
  the collections merged by timestamp, the emergency fund and the profile as they are
  locally), the store mutation with that ciphertext and the metadata mutation, both
  acknowledged, and the time of the sync is written. When the upload fails nothing
  follows and the cycle ends in the state the upload left. When there is no remote
  record, or the remote record is not newer than the time the upload has just written,
  nothing follows either: nothing is decrypted or imported, so no local edit of any kind
  is touched. When something follows, the upload has succeeded and the remote record is
  strictly newer than that time. A snapshot handed to the import is then the merge of
  the local data with the decrypted remote data: it holds every local entry at its
  place unchanged unless a remote entry with the same id has a strictly greater
  timestamp (the collections merged by timestamp are taken with distinct local ids), the
  local emergency fund unless the remote one is strictly greater, and the local profile
  when the remote data have none.
\<close>

theorem upload_precedes_download:
  "\<exists>pre post.
     calls (snd (syncToConvex e None w)) = calls w @ pre \<and>
     calls (performSmartSync e w) = calls w @ pre @ post \<and>
     list_all (\<lambda>c. \<not> is_download_call c) pre \<and>
     list_all (\<lambda>c. \<not> is_upload_call c) post \<and>
     (success (fst (syncToConvex e None w)) \<longrightarrow>
        (\<exists>u allCategories a m.
           user e = Some u \<and> categories (wallet e) = Some allCategories \<and>
           pre =
             [EncryptWalletData (uploaded_snapshot e allCategories) (syncPassword_of None u),
              StoreWalletData a, UpdateSyncMetadata m] \<and>
           fst (encryptWalletData e (uploaded_snapshot e allCategories)
                  (syncPassword_of None u) w) =
             Inr (store_encryptedData a, store_dataHash a) \<and>
           store_userId a = user_id u \<and> meta_userId m = user_id u \<and>
           storeWalletDataMutation e a = None \<and> updateSyncMetadataMutation e m = None \<and>
           (\<forall>c. c \<noteq> DebtCreditTransactions \<longrightarrow>
                tracked c (uploaded_snapshot e allCategories) = tracked c (wallet e)) \<and>
           emergencyFund (uploaded_snapshot e allCategories) = emergencyFund (wallet e) \<and>
           userProfile (uploaded_snapshot e allCategories) = userProfile (wallet e) \<and>
           localStorage (snd (syncToConvex e None w)) ''convex_last_sync_time'' = Some (toString (dateNow e)))) \<and>
     (\<not> success (fst (syncToConvex e None w)) \<longrightarrow>
        post = [] \<and> performSmartSync e w = snd (syncToConvex e None w)) \<and>
     ((getLatestWalletData e = None \<or>
       (\<exists>latest. getLatestWalletData e = Some latest \<and>
          record_lastModified latest \<le> dateNow e)) \<longrightarrow>
        post = [] \<and> performSmartSync e w = snd (syncToConvex e None w)) \<and>
     (post \<noteq> [] \<longrightarrow>
        success (fst (syncToConvex e None w)) \<and>
        (\<exists>latest. getLatestWalletData e = Some latest \<and>
           remote_is_newer latest (localStorage (snd (syncToConvex e None w)) ''convex_last_sync_time'') \<and>
           record_lastModified latest > dateNow e)) \<and>
     (\<forall>m. ImportData m \<in> set post \<longrightarrow>
        (\<exists>latest u remoteData.
           getLatestWalletData e = Some latest \<and> user e = Some u \<and>
           fst (decryptWalletData e (encryptedData latest) (syncPassword_of None u) w) =
             Inr remoteData \<and>
           m = merged (mergeWalletData (local_snapshot e) remoteData) \<and>
           (\<forall>c i. i < length (tracked c (wallet e)) \<and>
                  (c \<noteq> DebtCreditTransactions \<longrightarrow>
                     distinct (map id' (tracked c (wallet e))) \<and>
                     remote_not_newer c (wallet e) remoteData i) \<longrightarrow>
                  tracked c m ! i = tracked c (wallet e) ! i) \<and>
           emergencyFund m =
             (case emergencyFund remoteData of
                None \<Rightarrow> emergencyFund (wallet e)
              | Some r \<Rightarrow>
                  if r > or_num (emergencyFund (wallet e)) 0 then Some r
                  else emergencyFund (wallet e)) \<and>
           (userProfile remoteData = None \<longrightarrow> userProfile m = userProfile (wallet e))))"
proof -
  let ?up = "syncToConvex e None w"
  let ?w1 = "snd ?up"
  obtain pre where pre: "calls ?w1 = calls w @ pre" "list_all is_upload_call pre"
    using syncToConvex_calls [of e None w] by blast
  have pre_nd: "list_all (\<lambda>c. \<not> is_download_call c) pre"
  proof -
    have "is_upload_call c \<Longrightarrow> \<not> is_download_call c" for c by (cases c) simp_all
    with pre(2) show ?thesis by (auto simp: list_all_iff)
  qed
  have upl: "success (fst (syncToConvex e None w)) \<longrightarrow>
        (\<exists>u allCategories a m.
           user e = Some u \<and> categories (wallet e) = Some allCategories \<and>
           pre =
             [EncryptWalletData (uploaded_snapshot e allCategories) (syncPassword_of None u),
              StoreWalletData a, UpdateSyncMetadata m] \<and>
           fst (encryptWalletData e (uploaded_snapshot e allCategories)
                  (syncPassword_of None u) w) =
             Inr (store_encryptedData a, store_dataHash a) \<and>
           store_userId a = user_id u \<and> meta_userId m = user_id u \<and>
           storeWalletDataMutation e a = None \<and> updateSyncMetadataMutation e m = None \<and>
           (\<forall>c. c \<noteq> DebtCreditTransactions \<longrightarrow>
                tracked c (uploaded_snapshot e allCategories) = tracked c (wallet e)) \<and>
           emergencyFund (uploaded_snapshot e allCategories) = emergencyFund (wallet e) \<and>
           userProfile (uploaded_snapshot e allCategories) = userProfile (wallet e) \<and>
           localStorage (snd (syncToConvex e None w)) ''convex_last_sync_time'' = Some (toString (dateNow e)))"
  proof
    assume "success (fst ?up)"
    from syncToConvex_success [OF this] obtain u allCategories a m where
      f: "user e = Some u" "categories (wallet e) = Some allCategories"
         "calls ?w1 = calls w @
            [EncryptWalletData (uploaded_snapshot e allCategories) (syncPassword_of None u),
             StoreWalletData a, UpdateSyncMetadata m]"
         "fst (encryptWalletData e (uploaded_snapshot e allCategories)
                 (syncPassword_of None u) w) =
            Inr (store_encryptedData a, store_dataHash a)"
         "store_userId a = user_id u" "meta_userId m = user_id u"
         "storeWalletDataMutation e a = None" "updateSyncMetadataMutation e m = None"
         "localStorage ?w1 ''convex_last_sync_time'' = Some (toString (dateNow e))"
      by blast
    from f(3) pre(1) have p: "pre =
        [EncryptWalletData (uploaded_snapshot e allCategories) (syncPassword_of None u),
         StoreWalletData a, UpdateSyncMetadata m]"
      by simp
    have t: "\<forall>c. c \<noteq> DebtCreditTransactions \<longrightarrow>
                tracked c (uploaded_snapshot e allCategories) = tracked c (wallet e)"
      using tracked_uploaded_snapshot [OF f(2)] by blast
    have s: "emergencyFund (uploaded_snapshot e allCategories) = emergencyFund (wallet e)"
      "userProfile (uploaded_snapshot e allCategories) = userProfile (wallet e)"
      by (simp_all add: uploaded_snapshot_def)
    from f(1,2) p f(4-9) t s
    show "\<exists>u allCategories a m.
           user e = Some u \<and> categories (wallet e) = Some allCategories \<and>
           pre =
             [EncryptWalletData (uploaded_snapshot e allCategories) (syncPassword_of None u),
              StoreWalletData a, UpdateSyncMetadata m] \<and>
           fst (encryptWalletData e (uploaded_snapshot e allCategories)
                  (syncPassword_of None u) w) =
             Inr (store_encryptedData a, store_dataHash a) \<and>
           store_userId a = user_id u \<and> meta_userId m = user_id u \<and>
           storeWalletDataMutation e a = None \<and> updateSyncMetadataMutation e m = None \<and>
           (\<forall>c. c \<noteq> DebtCreditTransactions \<longrightarrow>
                tracked c (uploaded_snapshot e allCategories) = tracked c (wallet e)) \<and>
           emergencyFund (uploaded_snapshot e allCategories) = emergencyFund (wallet e) \<and>
           userProfile (uploaded_snapshot e allCategories) = userProfile (wallet e) \<and>
           localStorage (snd (syncToConvex e None w)) ''convex_last_sync_time'' = Some (toString (dateNow e))"
      by (intro exI [of _ u] exI [of _ allCategories] exI [of _ a] exI [of _ m]) simp
  qed
  have quiet: ?thesis if stop: "performSmartSync e w = ?w1"
  proof -
    have "calls (performSmartSync e w) = calls w @ pre @ []" using stop pre(1) by simp
    with pre(1) pre_nd stop upl show ?thesis
      by - (rule exI [of _ pre], rule exI [of _ "[]"], simp)
  qed
  show ?thesis
  proof (cases "success (fst ?up)")
    case False
    then have "performSmartSync e w = ?w1"
      by (simp add: performSmartSync_def case_prod_beta)
    then show ?thesis by (rule quiet)
  next
    case True
    have guard: "isAuthenticated e \<and> user e \<noteq> None \<and> isEnabled (syncState w)"
    proof (rule ccontr)
      assume "\<not> ?thesis"
      then have "\<not> isAuthenticated e \<or> user e = None \<or> \<not> isEnabled (syncState w)" by blast
      from syncToConvex_guard [OF this, of None] True show False by (simp add: failed_def)
    qed
    then obtain u where u: "user e = Some u" by auto
    from syncToConvex_outcome [OF _ u, of w None] guard True
    have stamp: "localStorage ?w1 ''convex_last_sync_time'' = Some (toString (dateNow e))"
      by auto
    have en: "isEnabled (syncState ?w1)" using guard by (simp add: syncToConvex_isEnabled)
    show ?thesis
    proof (cases "getLatestWalletData e")
      case None
      with True have "performSmartSync e w = ?w1"
        by (simp add: performSmartSync_def case_prod_beta)
      then show ?thesis by (rule quiet)
    next
      case (Some latest)
      show ?thesis
      proof (cases "remote_is_newer latest (localStorage ?w1 ''convex_last_sync_time'')")
        case False
        with True Some have "performSmartSync e w = ?w1"
          by (simp add: performSmartSync_def case_prod_beta)
        then show ?thesis by (rule quiet)
      next
        case newer: True
        then have gt: "record_lastModified latest > dateNow e"
          by (simp add: stamp remote_is_newer_after_upload)
        let ?p = "syncPassword_of None u"
        have run: "performSmartSync e w = snd (download e ?p ?w1)"
          using True Some newer u guard en
          by (simp add: performSmartSync_def case_prod_beta syncFromConvex_def)
        obtain post where post: "calls (snd (download e ?p ?w1)) = calls ?w1 @ post"
            "post \<noteq> []" "list_all (\<lambda>c. \<not> is_upload_call c) post"
          and imp: "\<forall>m. ImportData m \<in> set post \<longrightarrow>
              (\<exists>remoteData. fst (decryptWalletData e (encryptedData latest) ?p ?w1) = Inr remoteData \<and>
                 m = merged (mergeWalletData (local_snapshot e) remoteData))"
          using download_calls [OF Some, of ?p ?w1] by blast
        have fst_w: "fst (decryptWalletData e c ?p ?w1) = fst (decryptWalletData e c ?p w)" for c
          by (simp add: decryptWalletData_def Let_def split: option.split)
        have survive: "\<exists>latest u remoteData.
           getLatestWalletData e = Some latest \<and> user e = Some u \<and>
           fst (decryptWalletData e (encryptedData latest) (syncPassword_of None u) w) =
             Inr remoteData \<and>
           m = merged (mergeWalletData (local_snapshot e) remoteData) \<and>
           (\<forall>c i. i < length (tracked c (wallet e)) \<and>
                  (c \<noteq> DebtCreditTransactions \<longrightarrow>
                     distinct (map id' (tracked c (wallet e))) \<and>
                     remote_not_newer c (wallet e) remoteData i) \<longrightarrow>
                  tracked c m ! i = tracked c (wallet e) ! i) \<and>
           emergencyFund m =
             (case emergencyFund remoteData of
                None \<Rightarrow> emergencyFund (wallet e)
              | Some r \<Rightarrow>
                  if r > or_num (emergencyFund (wallet e)) 0 then Some r
                  else emergencyFund (wallet e)) \<and>
           (userProfile remoteData = None \<longrightarrow> userProfile m = userProfile (wallet e))"
          if "ImportData m \<in> set post" for m
        proof -
          from imp that obtain remoteData
            where rd: "fst (decryptWalletData e (encryptedData latest) ?p w) = Inr remoteData"
              and m: "m = merged (mergeWalletData (local_snapshot e) remoteData)"
            using fst_w by auto
          have keep: "\<forall>c i. i < length (tracked c (wallet e)) \<and>
                  (c \<noteq> DebtCreditTransactions \<longrightarrow>
                     distinct (map id' (tracked c (wallet e))) \<and>
                     remote_not_newer c (wallet e) remoteData i) \<longrightarrow>
                  tracked c m ! i = tracked c (wallet e) ! i"
          proof (intro allI impI)
            fix c i
            assume a: "i < length (tracked c (wallet e)) \<and>
                  (c \<noteq> DebtCreditTransactions \<longrightarrow>
                     distinct (map id' (tracked c (wallet e))) \<and>
                     remote_not_newer c (wallet e) remoteData i)"
            have "remote_not_newer c (local_snapshot e) remoteData i
                    = remote_not_newer c (wallet e) remoteData i"
              by (simp add: remote_not_newer_def tracked_local_snapshot)
            with a tracked_keeps_local [of i c "local_snapshot e" remoteData]
            show "tracked c m ! i = tracked c (wallet e) ! i"
              by (simp add: m tracked_local_snapshot)
          qed
          have fund: "emergencyFund m =
             (case emergencyFund remoteData of
                None \<Rightarrow> emergencyFund (wallet e)
              | Some r \<Rightarrow>
                  if r > or_num (emergencyFund (wallet e)) 0 then Some r
                  else emergencyFund (wallet e))"
            by (simp add: m merged_fields local_snapshot_def cong: option.case_cong if_cong)
          have prof: "userProfile remoteData = None \<longrightarrow> userProfile m = userProfile (wallet e)"
            by (simp add: m merged_fields local_snapshot_def)
          from Some u rd m keep fund prof show ?thesis
            by (intro exI [of _ latest] exI [of _ u] exI [of _ remoteData] conjI)
        qed
        have c2: "calls (performSmartSync e w) = calls w @ pre @ post"
          using run post(1) pre(1) by simp
        show ?thesis
        proof (rule exI [of _ pre], rule exI [of _ post], intro conjI)
          show "calls ?w1 = calls w @ pre" by (rule pre(1))
          show "calls (performSmartSync e w) = calls w @ pre @ post" by (rule c2)
          show "list_all (\<lambda>c. \<not> is_download_call c) pre" by (rule pre_nd)
          show "list_all (\<lambda>c. \<not> is_upload_call c) post" by (rule post(3))
          show "success (fst (syncToConvex e None w)) \<longrightarrow>
        (\<exists>u allCategories a m.
           user e = Some u \<and> categories (wallet e) = Some allCategories \<and>
           pre =
             [EncryptWalletData (uploaded_snapshot e allCategories) (syncPassword_of None u),
              StoreWalletData a, UpdateSyncMetadata m] \<and>
           fst (encryptWalletData e (uploaded_snapshot e allCategories)
                  (syncPassword_of None u) w) =
             Inr (store_encryptedData a, store_dataHash a) \<and>
           store_userId a = user_id u \<and> meta_userId m = user_id u \<and>
           storeWalletDataMutation e a = None \<and> updateSyncMetadataMutation e m = None \<and>
           (\<forall>c. c \<noteq> DebtCreditTransactions \<longrightarrow>
                tracked c (uploaded_snapshot e allCategories) = tracked c (wallet e)) \<and>
           emergencyFund (uploaded_snapshot e allCategories) = emergencyFund (wallet e) \<and>
           userProfile (uploaded_snapshot e allCategories) = userProfile (wallet e) \<and>
           localStorage (snd (syncToConvex e None w)) ''convex_last_sync_time'' = Some (toString (dateNow e)))" by (rule upl)
          show "\<not> success (fst (syncToConvex e None w)) \<longrightarrow>
        post = [] \<and> performSmartSync e w = snd (syncToConvex e None w)" using True by simp
          show "(getLatestWalletData e = None \<or>
       (\<exists>latest. getLatestWalletData e = Some latest \<and>
          record_lastModified latest \<le> dateNow e)) \<longrightarrow>
        post = [] \<and> performSmartSync e w = snd (syncToConvex e None w)" using Some gt by simp
          show "post \<noteq> [] \<longrightarrow>
        success (fst (syncToConvex e None w)) \<and>
        (\<exists>latest. getLatestWalletData e = Some latest \<and>
           remote_is_newer latest (localStorage (snd (syncToConvex e None w)) ''convex_last_sync_time'') \<and>
           record_lastModified latest > dateNow e)" using True Some newer gt by simp
          show "\<forall>m. ImportData m \<in> set post \<longrightarrow>
        (\<exists>latest u remoteData.
           getLatestWalletData e = Some latest \<and> user e = Some u \<and>
           fst (decryptWalletData e (encryptedData latest) (syncPassword_of None u) w) =
             Inr remoteData \<and>
           m = merged (mergeWalletData (local_snapshot e) remoteData) \<and>
           (\<forall>c i. i < length (tracked c (wallet e)) \<and>
                  (c \<noteq> DebtCreditTransactions \<longrightarrow>
                     distinct (map id' (tracked c (wallet e))) \<and>
                     remote_not_newer c (wallet e) remoteData i) \<longrightarrow>
                  tracked c m ! i = tracked c (wallet e) ! i) \<and>
           emergencyFund m =
             (case emergencyFund remoteData of
                None \<Rightarrow> emergencyFund (wallet e)
              | Some r \<Rightarrow>
                  if r > or_num (emergencyFund (wallet e)) 0 then Some r
                  else emergencyFund (wallet e)) \<and>
           (userProfile remoteData = None \<longrightarrow> userProfile m = userProfile (wallet e)))" using survive by blast
        qed
      qed
    qed
  qed
qed

lemma example_upload:
  "syncToConvex example_env None example_world =
     (ok,
      example_world
        \<lparr>localStorage := (localStorage example_world)(''convex_last_sync_time'' \<mapsto> toString 1000),
         syncState := initial_SyncState\<lparr>isEnabled := True, lastSyncTime := Some 1000\<rparr>,
         calls :=
           [EncryptWalletData
              (empty_snapshot\<lparr>transactions := Some [item ''t1'' 5], categories := Some [],
                               exportedAt := 1000\<rparr>)
              (ascii ''convex_sync_'' @ ascii ''u1'' @ ascii ''_'' @ ascii ''a@b.c''),
            StoreWalletData
              \<lparr>store_userId = ascii ''u1'', store_deviceId = ''device_1'',
               store_encryptedData = ''cipher'', store_dataHash = ''hash'',
               store_version = ''1.0''\<rparr>,
            UpdateSyncMetadata
              \<lparr>meta_userId = ascii ''u1'', meta_deviceId = ''device_1'',
               meta_deviceName = ''Firefox on Linux'', meta_syncVersion = ''1.0''\<rparr>]\<rparr>)"
  by (simp add: syncToConvex_def example_env_def example_world_def Let_def
        encryptWalletData_def getDeviceInfo_def syncPassword_of_def initial_SyncState_def
        empty_snapshot_def)


lemma example_merge:
  "mergeWalletData (local_snapshot example_env) example_remote =
     \<lparr>merged = empty_snapshot\<lparr>transactions := Some [item ''t1'' 5, item ''t9'' 8],
                                 categories := Some [], exportedAt := 1000\<rparr>,
      conflicts = [], mergeLog = [AddedTransaction ''t9'' 0]\<rparr>"
  by (simp add: mergeWalletData_def mergeTransactions_def mergeBudgets_def mergeGoals_def
        mergeCategories_def mergeDebtAccounts_def mergeCreditAccounts_def
        mergeDebtCreditTransactions_def mergeEmergencyFund_def mergeUserProfile_def
        merge_collection_def merge_step_def Map_of_def getTimestamp_def
        local_snapshot_def example_env_def example_remote_def empty_snapshot_def item_def)

lemma example_cycle:
  "calls (performSmartSync example_env example_world) =
     [EncryptWalletData
        (empty_snapshot\<lparr>transactions := Some [item ''t1'' 5], categories := Some [],
                               exportedAt := 1000\<rparr>)
        (ascii ''convex_sync_'' @ ascii ''u1'' @ ascii ''_'' @ ascii ''a@b.c''),
      StoreWalletData
        \<lparr>store_userId = ascii ''u1'', store_deviceId = ''device_1'',
         store_encryptedData = ''cipher'', store_dataHash = ''hash'',
         store_version = ''1.0''\<rparr>,
      UpdateSyncMetadata
        \<lparr>meta_userId = ascii ''u1'', meta_deviceId = ''device_1'',
         meta_deviceName = ''Firefox on Linux'', meta_syncVersion = ''1.0''\<rparr>,
      DecryptWalletData ''cipher''
        (ascii ''convex_sync_'' @ ascii ''u1'' @ ascii ''_'' @ ascii ''a@b.c''),
      ImportData (empty_snapshot\<lparr>transactions := Some [item ''t1'' 5, item ''t9'' 8],
                                  categories := Some [], exportedAt := 1000\<rparr>),
      Toast ''Smart Sync Complete'']"
proof -
  have env: "getLatestWalletData example_env =
               Some \<lparr>encryptedData = ''cipher'', record_lastModified = 2000\<rparr>"
    "isAuthenticated example_env" "dateNow example_env = 1000"
    "user example_env = Some \<lparr>user_id = ascii ''u1'', email = ascii ''a@b.c''\<rparr>"
    "importData example_env = (\<lambda>m. Some True)"
    by (simp_all add: example_env_def)
  have dec: "fst (decryptWalletData example_env ''cipher'' p w) = Inr example_remote" for p w
    by (simp add: decryptWalletData_def example_env_def Let_def)
  have newer: "remote_is_newer \<lparr>encryptedData = ''cipher'', record_lastModified = 2000\<rparr>
                 (Some (toString 1000))"
    by (simp add: remote_is_newer_after_upload)
  have lm: "(wallet example_env)\<lparr>exportedAt := 1000\<rparr> = local_snapshot example_env"
    by (simp add: local_snapshot_def example_env_def)
  have start: "calls example_world = []" by (simp add: example_world_def)
  show ?thesis
    by (simp add: performSmartSync_def example_upload env newer syncFromConvex_def
          download_def Let_def case_prod_beta decryptWalletData_world dec lm example_merge
          syncPassword_of_def initial_SyncState_def ok_def start)
qed

lemma example_failed_upload:
  "\<not> success (fst (syncToConvex
       (example_env\<lparr>storeWalletDataMutation := (\<lambda>a. Some ''Network error'')\<rparr>) None
       example_world))"
  by (simp add: syncToConvex_def example_env_def example_world_def Let_def
        encryptWalletData_def getDeviceInfo_def upload_failed_def failed_def
        initial_SyncState_def)

theorem upload_precedes_download_witness:
  "success (fst (syncToConvex example_env None example_world)) \<and>
   (\<exists>a m. calls (snd (syncToConvex example_env None example_world)) =
      [EncryptWalletData (uploaded_snapshot example_env [])
         (ascii ''convex_sync_'' @ ascii ''u1'' @ ascii ''_'' @ ascii ''a@b.c''),
       StoreWalletData a, UpdateSyncMetadata m] \<and>
      storeWalletDataMutation example_env a = None \<and>
      updateSyncMetadataMutation example_env m = None) \<and>
   tracked Transactions (uploaded_snapshot example_env []) = [item ''t1'' 5] \<and>
   remote_not_newer Transactions (wallet example_env) example_remote 0 \<and>
   ImportData (merged (mergeWalletData (local_snapshot example_env) example_remote))
     \<in> set (calls (performSmartSync example_env example_world)) \<and>
   tracked Transactions (merged (mergeWalletData (local_snapshot example_env) example_remote)) ! 0
     = item ''t1'' 5 \<and>
   performSmartSync
     (example_env\<lparr>getLatestWalletData :=
        Some \<lparr>encryptedData = ''cipher'', record_lastModified = 900\<rparr>\<rparr>) example_world
     = snd (syncToConvex
         (example_env\<lparr>getLatestWalletData :=
            Some \<lparr>encryptedData = ''cipher'', record_lastModified = 900\<rparr>\<rparr>) None example_world) \<and>
   performSmartSync
     (example_env\<lparr>storeWalletDataMutation := (\<lambda>a. Some ''Network error'')\<rparr>) example_world
     = snd (syncToConvex
         (example_env\<lparr>storeWalletDataMutation := (\<lambda>a. Some ''Network error'')\<rparr>) None
         example_world)"
proof -
  let ?m = "merged (mergeWalletData (local_snapshot example_env) example_remote)"
  let ?older = "example_env\<lparr>getLatestWalletData :=
        Some \<lparr>encryptedData = ''cipher'', record_lastModified = 900\<rparr>\<rparr>"
  let ?failing = "example_env\<lparr>storeWalletDataMutation := (\<lambda>a. Some ''Network error'')\<rparr>"
  have s: "success (fst (syncToConvex example_env None example_world))"
    by (simp add: example_upload ok_def)
  have start: "calls example_world = []" by (simp add: example_world_def)
  from upload_precedes_download [of example_env example_world]
  obtain pre post where
    pre: "calls (snd (syncToConvex example_env None example_world)) = calls example_world @ pre"
    and all: "calls (performSmartSync example_env example_world) = calls example_world @ pre @ post"
    and upl: "success (fst (syncToConvex example_env None example_world)) \<longrightarrow>
        (\<exists>u allCategories a m.
           user example_env = Some u \<and> categories (wallet example_env) = Some allCategories \<and>
           pre =
             [EncryptWalletData (uploaded_snapshot example_env allCategories)
                (syncPassword_of None u),
              StoreWalletData a, UpdateSyncMetadata m] \<and>
           storeWalletDataMutation example_env a = None \<and>
           updateSyncMetadataMutation example_env m = None \<and>
           (\<forall>c. c \<noteq> DebtCreditTransactions \<longrightarrow>
                tracked c (uploaded_snapshot example_env allCategories) =
                tracked c (wallet example_env)))"
    and imp: "\<forall>m. ImportData m \<in> set post \<longrightarrow>
        (\<exists>latest u remoteData.
           getLatestWalletData example_env = Some latest \<and> user example_env = Some u \<and>
           fst (decryptWalletData example_env (encryptedData latest) (syncPassword_of None u)
                  example_world) = Inr remoteData \<and>
           m = merged (mergeWalletData (local_snapshot example_env) remoteData) \<and>
           (\<forall>c i. i < length (tracked c (wallet example_env)) \<and>
                  (c \<noteq> DebtCreditTransactions \<longrightarrow>
                     distinct (map id' (tracked c (wallet example_env))) \<and>
                     remote_not_newer c (wallet example_env) remoteData i) \<longrightarrow>
                  tracked c m ! i = tracked c (wallet example_env) ! i))"
    by blast
  from upl s obtain u allCategories a m where
    up: "user example_env = Some u" "categories (wallet example_env) = Some allCategories"
      "pre = [EncryptWalletData (uploaded_snapshot example_env allCategories)
                (syncPassword_of None u),
              StoreWalletData a, UpdateSyncMetadata m]"
      "storeWalletDataMutation example_env a = None"
      "updateSyncMetadataMutation example_env m = None"
      "\<forall>c. c \<noteq> DebtCreditTransactions \<longrightarrow>
                tracked c (uploaded_snapshot example_env allCategories) =
                tracked c (wallet example_env)"
    by blast
  from up(1,2) have who: "allCategories = []"
      "syncPassword_of None u = ascii ''convex_sync_'' @ ascii ''u1'' @ ascii ''_'' @ ascii ''a@b.c''"
    by (auto simp: example_env_def empty_snapshot_def syncPassword_of_def)
  have uploaded: "\<exists>a m. calls (snd (syncToConvex example_env None example_world)) =
      [EncryptWalletData (uploaded_snapshot example_env [])
         (ascii ''convex_sync_'' @ ascii ''u1'' @ ascii ''_'' @ ascii ''a@b.c''),
       StoreWalletData a, UpdateSyncMetadata m] \<and>
      storeWalletDataMutation example_env a = None \<and>
      updateSyncMetadataMutation example_env m = None"
    using pre start up(3-5) who by auto
  have "tracked Transactions (uploaded_snapshot example_env []) =
          tracked Transactions (wallet example_env)"
    using up(6) who(1) by simp
  then have carried: "tracked Transactions (uploaded_snapshot example_env []) = [item ''t1'' 5]"
    by (simp add: tracked_def example_env_def empty_snapshot_def)
  from pre all start have post: "calls (performSmartSync example_env example_world)
      = calls (snd (syncToConvex example_env None example_world)) @ post"
    by simp
  have in_post: "ImportData ?m \<in> set post"
    using post by (auto simp: example_cycle example_upload example_merge)
  have in_calls: "ImportData ?m \<in> set (calls (performSmartSync example_env example_world))"
    by (simp add: example_cycle example_merge)
  from imp in_post obtain latest u' remoteData where
    rd: "getLatestWalletData example_env = Some latest" "user example_env = Some u'"
      "fst (decryptWalletData example_env (encryptedData latest) (syncPassword_of None u')
             example_world) = Inr remoteData"
    and keep: "\<forall>c i. i < length (tracked c (wallet example_env)) \<and>
                  (c \<noteq> DebtCreditTransactions \<longrightarrow>
                     distinct (map id' (tracked c (wallet example_env))) \<and>
                     remote_not_newer c (wallet example_env) remoteData i) \<longrightarrow>
                  tracked c ?m ! i = tracked c (wallet example_env) ! i"
    by blast
  from rd have remote: "remoteData = example_remote"
    by (simp add: decryptWalletData_def example_env_def Let_def)
  have n: "remote_not_newer Transactions (wallet example_env) example_remote 0"
    by (simp add: remote_not_newer_def tracked_def example_env_def example_remote_def
          empty_snapshot_def item_def getTimestamp_def)
  have d: "distinct (map id' (tracked Transactions (wallet example_env)))"
    "0 < length (tracked Transactions (wallet example_env))"
    by (simp_all add: tracked_def example_env_def empty_snapshot_def)
  from keep remote n d
  have "tracked Transactions ?m ! 0 = tracked Transactions (wallet example_env) ! 0"
    by blast
  then have kept: "tracked Transactions ?m ! 0 = item ''t1'' 5"
    by (simp add: tracked_def example_env_def empty_snapshot_def)
  have old: "getLatestWalletData ?older = None \<or>
       (\<exists>latest. getLatestWalletData ?older = Some latest \<and>
          record_lastModified latest \<le> dateNow ?older)"
    by (simp add: example_env_def)
  from upload_precedes_download [of ?older example_world] old
  have no_download: "performSmartSync ?older example_world
                       = snd (syncToConvex ?older None example_world)"
    by blast
  from upload_precedes_download [of ?failing example_world] example_failed_upload
  have stopped: "performSmartSync ?failing example_world
                   = snd (syncToConvex ?failing None example_world)"
    by blast
  from s uploaded carried n in_calls kept no_download stopped show ?thesis
    by (intro conjI)
qed

end
